theory Spec2Isabelle
  imports Main "HOL-Library.Word"
begin

unbundle bit_operations_syntax

section \<open>The host interface shared by both watch faces\<close>

text \<open>
  The two faces \<^verbatim>\<open>alarm_face.c\<close> and \<^verbatim>\<open>timer_face.c\<close> are driven by the movement
  framework: it calls \<^verbatim>\<open>*_face_loop\<close> once per event, and the face answers by changing
  its own state and by calling into the framework and the watch library (buzzer,
  indicators, display, background-task scheduler). Those calls are recorded here as a
  list of requests in the order the C code issues them.
\<close>

datatype movement_event_type =
    EVENT_NONE
  | EVENT_ACTIVATE
  | EVENT_TICK
  | EVENT_LOW_ENERGY_UPDATE
  | EVENT_BACKGROUND_TASK
  | EVENT_TIMEOUT
  | EVENT_LIGHT_BUTTON_DOWN
  | EVENT_LIGHT_BUTTON_UP
  | EVENT_LIGHT_LONG_PRESS
  | EVENT_LIGHT_LONG_UP
  | EVENT_MODE_BUTTON_DOWN
  | EVENT_MODE_BUTTON_UP
  | EVENT_MODE_LONG_PRESS
  | EVENT_MODE_LONG_UP
  | EVENT_ALARM_BUTTON_DOWN
  | EVENT_ALARM_BUTTON_UP
  | EVENT_ALARM_LONG_PRESS
  | EVENT_ALARM_LONG_UP

record movement_event =
  event_type :: movement_event_type
  subsecond :: nat

datatype BuzzerNote =
    BUZZER_NOTE_B6
  | BUZZER_NOTE_C7
  | BUZZER_NOTE_C8
  | BUZZER_NOTE_A8
  | BUZZER_NOTE_REST

datatype watch_indicator =
    WATCH_INDICATOR_SIGNAL
  | WATCH_INDICATOR_BELL
  | WATCH_INDICATOR_PM
  | WATCH_INDICATOR_24H
  | WATCH_INDICATOR_LAP

text \<open>The two note sequences of \<^verbatim>\<open>timer_face.c\<close>, by name.\<close>

datatype sound_seq = Sound_seq_beep | Sound_seq_start

text \<open>
  One constructor per library call the two faces make. \<open>Buzzer_play_sequence s cb\<close>
  carries whether \<^verbatim>\<open>_signal_callback\<close> was passed as the completion callback;
  \<open>Schedule_background_task_for_face i t\<close> carries the timestamp whose date and time
  (\<^verbatim>\<open>watch_utility_date_time_from_unix_time\<close>) is handed to the scheduler. The text
  written by \<^verbatim>\<open>watch_display_string\<close> is not modelled, only the call and its position.
\<close>

datatype request =
    Schedule_background_task_for_face nat "32 word"
  | Cancel_background_task_for_face nat
  | Cancel_background_task
  | Request_tick_frequency nat
  | Set_indicator watch_indicator
  | Clear_indicator watch_indicator
  | Set_colon
  | Clear_colon
  | Display_string nat
  | Buzzer_play_sequence sound_seq bool
  | Buzzer_play_note BuzzerNote nat
  | Play_alarm_beeps nat BuzzerNote
  | Enable_buzzer
  | Disable_buzzer
  | Delay_ms nat
  | Illuminate_led
  | Set_led_off
  | Move_to_face nat
  | Default_loop_handler movement_event

text \<open>The bits of \<^verbatim>\<open>movement_settings_t\<close> the two faces read or write.\<close>

record movement_settings =
  clock_mode_24h :: bool
  button_should_sound :: bool
  alarm_enabled :: bool

section \<open>The alarm face\<close>

subsection \<open>Data\<close>

text \<open>
  \<^verbatim>\<open>watch_date_time\<close> is the bit-packed date and time of the real-time clock. Its
  declaration is not part of the sources at hand, so the width of the year field, the
  only field \<^verbatim>\<open>_get_weekday_idx\<close> stores a sum into that could exceed it, is the type
  parameter \<open>'y\<close>: the field holds the years since 2020 in \<open>LENGTH('y)\<close> bits. The
  other fields are only read, or (the month) raised by 12 from at most 2.
\<close>

record (overloaded) 'y watch_date_time =
  unit_second :: nat
  unit_minute :: nat
  unit_hour :: nat
  unit_day :: nat
  unit_month :: nat
  unit_year :: "'y word"

text \<open>
  The constants of \<^verbatim>\<open>alarm_face.h\<close>, as the tables of \<^verbatim>\<open>alarm_face.c\<close> fix them:
  \<^verbatim>\<open>_dow_strings\<close> has ten entries with "AL" (each day) at index 7, "MF" (workdays)
  at 8 and "WN" (weekend) at 9; \<^verbatim>\<open>_beeps_strings\<close> has eleven entries; the blink tables
  have five.
\<close>

definition ALARM_DAY_STATES :: nat where "ALARM_DAY_STATES = 10"
definition ALARM_DAY_EACH_DAY :: nat where "ALARM_DAY_EACH_DAY = 7"
definition ALARM_DAY_WORKDAY :: nat where "ALARM_DAY_WORKDAY = 8"
definition ALARM_DAY_WEEKEND :: nat where "ALARM_DAY_WEEKEND = 9"
definition ALARM_MAX_BEEP_ROUNDS :: nat where "ALARM_MAX_BEEP_ROUNDS = 11"
definition ALARM_SETTING_STATES :: nat where "ALARM_SETTING_STATES = 5"

text \<open>\<^verbatim>\<open>alarm_setting_idx_t\<close>: the settings cursor, compared as a number in the C code.\<close>

definition alarm_setting_idx_day :: nat where "alarm_setting_idx_day = 0"
definition alarm_setting_idx_hour :: nat where "alarm_setting_idx_hour = 1"
definition alarm_setting_idx_minute :: nat where "alarm_setting_idx_minute = 2"
definition alarm_setting_idx_pitch :: nat where "alarm_setting_idx_pitch = 3"
definition alarm_setting_idx_beeps :: nat where "alarm_setting_idx_beeps = 4"

text \<open>
  \<^verbatim>\<open>alarm_setting_t\<close> and \<^verbatim>\<open>alarm_state_t\<close> of \<^verbatim>\<open>alarm_face.h\<close>. Every store into a
  field of the setting is a value reduced by \<^verbatim>\<open>%\<close>, the settings cursor is counted up
  to \<^verbatim>\<open>ALARM_SETTING_STATES\<close> at most, and \<^verbatim>\<open>alarm_handled_minute\<close> holds -1 or a minute
  of the clock, so none of the fields is given a width.
\<close>

record alarm_setting =
  day :: nat
  hour :: nat
  minute :: nat
  beeps :: nat
  pitch :: nat
  enabled :: bool

record alarm_state =
  setting_state :: nat
  alarm_handled_minute :: int
  alarm_quick_ticks :: bool
  is_setting :: bool
  alarm :: alarm_setting

text \<open>
  What the alarm face owns besides its context: the file-level counter
  \<^verbatim>\<open>_wait_ticks\<close> (an \<^verbatim>\<open>int8_t\<close> that is set to -1 or 0 and counted up to 2 at
  most) and the movement settings it writes the alarm indicator bit to.
\<close>

record alarm_world =
  alarm_ctx :: alarm_state
  wait_ticks :: int
  settings :: movement_settings

text \<open>What a call of the alarm face reads from the hardware.\<close>

record (overloaded) 'y alarm_env =
  rtc_date_time :: "'y watch_date_time"
  buzzer_or_led_enabled :: bool

text \<open>
  \<^verbatim>\<open>_buzzer_notes\<close> has three entries. Indexing it with a pitch of 3 or more reads
  past the array in C; the model makes that a fault.
\<close>

datatype fault = Index_out_of_bounds

definition buzzer_notes :: "BuzzerNote list" where
  "buzzer_notes = [BUZZER_NOTE_B6, BUZZER_NOTE_C8, BUZZER_NOTE_A8]"

definition buzzer_note :: "nat \<Rightarrow> fault + BuzzerNote" where
  "buzzer_note pitch_idx =
     (if pitch_idx < length buzzer_notes then Inr (buzzer_notes ! pitch_idx)
      else Inl Index_out_of_bounds)"

subsection \<open>Weekday and day patterns\<close>

definition get_weekday_idx :: "('y::len) watch_date_time \<Rightarrow> nat" where
  "get_weekday_idx date_time =
     (let year0 = unit_year date_time + 20;
          month1 = (if unit_month date_time \<le> 2 then unit_month date_time + 12
                    else unit_month date_time);
          year1 = (if unit_month date_time \<le> 2 then year0 - 1 else year0)
      in (unit_day date_time + (13 * (month1 + 1)) div 5 + unat year1 + unat year1 div 4
          + 525 - 2) mod 7)"

definition alarm_set_signal :: "alarm_state \<Rightarrow> request list" where
  "alarm_set_signal state =
     (if enabled (alarm state) then [Set_indicator WATCH_INDICATOR_SIGNAL]
      else [Clear_indicator WATCH_INDICATOR_SIGNAL])"

definition alarm_face_draw :: "movement_settings \<Rightarrow> alarm_state \<Rightarrow> nat \<Rightarrow> request list" where
  "alarm_face_draw sett state subsec =
     (if \<not> clock_mode_24h sett then
        (if hour (alarm state) \<ge> 12 then [Set_indicator WATCH_INDICATOR_PM]
         else [Clear_indicator WATCH_INDICATOR_PM])
      else [Set_indicator WATCH_INDICATOR_24H])
     @ [Display_string 0]
     @ alarm_set_signal state"

definition alarm_initiate_setting ::
  "movement_settings \<Rightarrow> alarm_state \<Rightarrow> nat \<Rightarrow> alarm_state \<times> request list" where
  "alarm_initiate_setting sett state subsec =
     (let state1 = state\<lparr>is_setting := True, setting_state := 0\<rparr>
      in (state1, Request_tick_frequency 4 # alarm_face_draw sett state1 subsec))"

definition alarm_resume_setting ::
  "movement_settings \<Rightarrow> alarm_state \<Rightarrow> nat \<Rightarrow> alarm_state \<times> request list" where
  "alarm_resume_setting sett state subsec =
     (let state1 = state\<lparr>is_setting := False\<rparr>
      in (state1, Request_tick_frequency 1 # alarm_face_draw sett state1 subsec))"

definition alarm_update_alarm_enabled ::
  "('y::len) watch_date_time \<Rightarrow> alarm_state \<Rightarrow> movement_settings \<Rightarrow> movement_settings" where
  "alarm_update_alarm_enabled now state sett =
     (let weekday_idx = get_weekday_idx now;
          now_minutes_of_day = unit_hour now * 60 + unit_minute now;
          alarm_minutes_of_day = hour (alarm state) * 60 + minute (alarm state);
          d = day (alarm state);
          active_alarms =
            (enabled (alarm state) \<and>
             (d = ALARM_DAY_EACH_DAY
              \<or> (d = weekday_idx \<and> alarm_minutes_of_day \<ge> now_minutes_of_day)
              \<or> ((weekday_idx + 1) mod 7 = d \<and> alarm_minutes_of_day \<le> now_minutes_of_day)
              \<or> (d = ALARM_DAY_WORKDAY \<and>
                  (weekday_idx < 4
                   \<or> (weekday_idx = 4 \<and> alarm_minutes_of_day \<ge> now_minutes_of_day)
                   \<or> (weekday_idx = 6 \<and> alarm_minutes_of_day \<le> now_minutes_of_day)))
              \<or> (d = ALARM_DAY_WEEKEND \<and>
                  (weekday_idx = 5
                   \<or> (weekday_idx = 6 \<and> alarm_minutes_of_day \<ge> now_minutes_of_day)
                   \<or> (weekday_idx = 4 \<and> alarm_minutes_of_day \<le> now_minutes_of_day)))))
      in sett\<lparr>alarm_enabled := active_alarms\<rparr>)"

definition alarm_play_short_beep :: "nat \<Rightarrow> fault + request list" where
  "alarm_play_short_beep pitch_idx =
     (case buzzer_note pitch_idx of
        Inl e \<Rightarrow> Inl e
      | Inr note \<Rightarrow>
          Inr [Buzzer_play_note note 50, Buzzer_play_note BUZZER_NOTE_REST 50,
               Buzzer_play_note note 70])"

definition alarm_indicate_beep :: "alarm_state \<Rightarrow> fault + request list" where
  "alarm_indicate_beep state =
     (if beeps (alarm state) = 0 then alarm_play_short_beep (pitch (alarm state))
      else (case buzzer_note (pitch (alarm state)) of
              Inl e \<Rightarrow> Inl e
            | Inr note \<Rightarrow> Inr [Play_alarm_beeps 1 note]))"

definition abort_quick_ticks :: "alarm_state \<Rightarrow> alarm_state \<times> request list" where
  "abort_quick_ticks state =
     (if alarm_quick_ticks state
      then (state\<lparr>alarm_quick_ticks := False\<rparr>, [Request_tick_frequency 4])
      else (state, []))"

subsection \<open>Setup, resign and the fire check\<close>

text \<open>
  \<^verbatim>\<open>alarm_face_setup\<close>, when the context has not been allocated yet: the state is
  zeroed, then the defaults are stored.
\<close>

definition alarm_face_setup :: "movement_settings \<Rightarrow> alarm_world" where
  "alarm_face_setup sett =
     \<lparr>alarm_ctx =
        \<lparr>setting_state = 0, alarm_handled_minute = - 1, alarm_quick_ticks = False,
         is_setting = False,
         alarm = \<lparr>day = ALARM_DAY_EACH_DAY, hour = 0, minute = 0, beeps = 5, pitch = 1,
                  enabled = False\<rparr>\<rparr>,
      wait_ticks = - 1,
      settings = sett\<rparr>"

definition alarm_face_resign ::
  "('y::len) watch_date_time \<Rightarrow> alarm_world \<Rightarrow> alarm_world \<times> request list" where
  "alarm_face_resign now w =
     (let state1 = (alarm_ctx w)\<lparr>is_setting := False\<rparr>;
          sett1 = alarm_update_alarm_enabled now state1 (settings w);
          state2 = state1\<lparr>alarm_quick_ticks := False\<rparr>
      in (w\<lparr>alarm_ctx := state2, wait_ticks := - 1, settings := sett1\<rparr>,
          [Set_led_off, Request_tick_frequency 1]))"

definition alarm_face_wants_background_task ::
  "('y::len) watch_date_time \<Rightarrow> alarm_world \<Rightarrow> bool \<times> alarm_world" where
  "alarm_face_wants_background_task now w =
     (let state = alarm_ctx w in
      if alarm_handled_minute state = int (unit_minute now) then (False, w)
      else
        let state1 = state\<lparr>alarm_handled_minute := int (unit_minute now)\<rparr>;
            weekday_idx = get_weekday_idx now
        in
          if enabled (alarm state1) \<and> minute (alarm state1) = unit_minute now
             \<and> hour (alarm state1) = unit_hour now
             \<and> (day (alarm state1) = ALARM_DAY_EACH_DAY
                \<or> day (alarm state1) = weekday_idx
                \<or> (day (alarm state1) = ALARM_DAY_WORKDAY \<and> weekday_idx < 5)
                \<or> (day (alarm state1) = ALARM_DAY_WEEKEND \<and> weekday_idx \<ge> 5))
          then (True, w\<lparr>alarm_ctx := state1\<rparr>)
          else
            let state2 = state1\<lparr>alarm_handled_minute := - 1\<rparr>;
                sett1 = (if unit_minute now mod 12 = 0
                         then alarm_update_alarm_enabled now state2 (settings w)
                         else settings w)
            in (False, w\<lparr>alarm_ctx := state2, settings := sett1\<rparr>))"

subsection \<open>The event loop\<close>

text \<open>The settings branch of \<^verbatim>\<open>EVENT_ALARM_BUTTON_UP\<close>: the switch on the cursor.\<close>

definition alarm_settings_increment :: "alarm_state \<Rightarrow> fault + (alarm_state \<times> request list)" where
  "alarm_settings_increment state =
     (let a = alarm state; c = setting_state state in
      if c = alarm_setting_idx_day then
        Inr (state\<lparr>alarm := a\<lparr>day := (day a + 1) mod ALARM_DAY_STATES\<rparr>\<rparr>, [])
      else if c = alarm_setting_idx_hour then
        (let (state1, rs) = abort_quick_ticks state
         in Inr (state1\<lparr>alarm := a\<lparr>hour := (hour a + 1) mod 24\<rparr>\<rparr>, rs))
      else if c = alarm_setting_idx_minute then
        (let (state1, rs) = abort_quick_ticks state
         in Inr (state1\<lparr>alarm := a\<lparr>minute := (minute a + 1) mod 60\<rparr>\<rparr>, rs))
      else if c = alarm_setting_idx_pitch then
        (let state1 = state\<lparr>alarm := a\<lparr>pitch := (pitch a + 1) mod 3\<rparr>\<rparr>
         in case alarm_indicate_beep state1 of
              Inl e \<Rightarrow> Inl e
            | Inr rs \<Rightarrow> Inr (state1, rs))
      else if c = alarm_setting_idx_beeps then
        (let state1 = state\<lparr>alarm := a\<lparr>beeps := (beeps a + 1) mod ALARM_MAX_BEEP_ROUNDS\<rparr>\<rparr>
         in if beeps (alarm state1) \<le> 1
            then (case alarm_indicate_beep state1 of
                    Inl e \<Rightarrow> Inl e
                  | Inr rs \<Rightarrow> Inr (state1, rs))
            else Inr (state1, []))
      else Inr (state, []))"

text \<open>The \<^verbatim>\<open>EVENT_BACKGROUND_TASK\<close> branch: the signal of a firing alarm.\<close>

definition alarm_play_alarm :: "bool \<Rightarrow> alarm_state \<Rightarrow> fault + request list" where
  "alarm_play_alarm buzzer_on state =
     (if beeps (alarm state) = 0 then
        (if buzzer_on then alarm_play_short_beep (pitch (alarm state))
         else (case alarm_play_short_beep (pitch (alarm state)) of
                 Inl e \<Rightarrow> Inl e
               | Inr rs \<Rightarrow> Inr ([Enable_buzzer] @ rs @ [Disable_buzzer])))
      else
        (case buzzer_note (pitch (alarm state)) of
           Inl e \<Rightarrow> Inl e
         | Inr note \<Rightarrow>
             Inr [Play_alarm_beeps
                    (if beeps (alarm state) = ALARM_MAX_BEEP_ROUNDS - 1 then 20
                     else beeps (alarm state))
                    note]))"

text \<open>
  \<^verbatim>\<open>alarm_face_loop\<close>. The C function always returns true; the model returns the
  new state and the requests made, or the fault of an out-of-bounds note index.
\<close>

definition alarm_face_loop ::
  "('y::len) alarm_env \<Rightarrow> movement_event \<Rightarrow> alarm_world
     \<Rightarrow> fault + (alarm_world \<times> request list)" where
  "alarm_face_loop env event w =
     (let state = alarm_ctx w; sett = settings w; ss = subsecond event in
      case event_type event of
        EVENT_TICK \<Rightarrow>
          if alarm_quick_ticks state then
            (let (state1, rs) =
                   (if setting_state state = alarm_setting_idx_hour then
                      (state\<lparr>alarm := (alarm state)\<lparr>hour := (hour (alarm state) + 1) mod 24\<rparr>\<rparr>, [])
                    else if setting_state state = alarm_setting_idx_minute then
                      (state\<lparr>alarm := (alarm state)\<lparr>minute := (minute (alarm state) + 1) mod 60\<rparr>\<rparr>, [])
                    else abort_quick_ticks state)
             in Inr (w\<lparr>alarm_ctx := state1\<rparr>, rs @ alarm_face_draw sett state1 ss))
          else if \<not> is_setting state then
            (let wt = (if wait_ticks w \<ge> 0 then wait_ticks w + 1 else wait_ticks w) in
             if wt = 2 then
               (let state1 = state\<lparr>alarm := (alarm state)\<lparr>enabled := \<not> enabled (alarm state)\<rparr>\<rparr>
                in Inr (w\<lparr>alarm_ctx := state1, wait_ticks := - 1\<rparr>,
                        alarm_set_signal state1 @ [Delay_ms 275] @ alarm_face_draw sett state1 ss))
             else Inr (w\<lparr>wait_ticks := wt\<rparr>, []))
          else Inr (w, alarm_face_draw sett state ss)
      | EVENT_ACTIVATE \<Rightarrow> Inr (w, alarm_face_draw sett state ss)
      | EVENT_LIGHT_BUTTON_UP \<Rightarrow>
          if \<not> is_setting state then Inr (w, [Illuminate_led])
          else
            (let state1 = state\<lparr>setting_state := setting_state state + 1\<rparr> in
             if setting_state state1 \<ge> ALARM_SETTING_STATES then
               (let (state2, rs) = alarm_resume_setting sett state1 ss
                in Inr (w\<lparr>alarm_ctx := state2\<rparr>, rs))
             else Inr (w\<lparr>alarm_ctx := state1\<rparr>, []))
      | EVENT_LIGHT_LONG_PRESS \<Rightarrow>
          (let (state1, rs) =
                 (if is_setting state then alarm_resume_setting sett state ss
                  else alarm_initiate_setting sett state ss)
           in Inr (w\<lparr>alarm_ctx := state1\<rparr>, rs))
      | EVENT_ALARM_BUTTON_UP \<Rightarrow>
          if \<not> is_setting state then
            Inr (w\<lparr>wait_ticks := - 1\<rparr>, alarm_face_draw sett state ss)
          else
            (case alarm_settings_increment state of
               Inl e \<Rightarrow> Inl e
             | Inr (state1, rs) \<Rightarrow>
                 Inr (w\<lparr>alarm_ctx := state1\<rparr>, rs @ alarm_face_draw sett state1 ss))
      | EVENT_ALARM_LONG_PRESS \<Rightarrow>
          if \<not> is_setting state then
            (let state1 = state\<lparr>alarm := (alarm state)\<lparr>enabled := \<not> enabled (alarm state)\<rparr>\<rparr>
             in Inr (w\<lparr>alarm_ctx := state1, wait_ticks := 0\<rparr>, alarm_face_draw sett state1 ss))
          else if setting_state state = alarm_setting_idx_minute
                  \<or> setting_state state = alarm_setting_idx_hour then
            (let state1 = state\<lparr>alarm_quick_ticks := True\<rparr>
             in Inr (w\<lparr>alarm_ctx := state1\<rparr>,
                     Request_tick_frequency 8 # alarm_face_draw sett state1 ss))
          else Inr (w, alarm_face_draw sett state ss)
      | EVENT_ALARM_LONG_UP \<Rightarrow>
          if is_setting state then
            (if setting_state state = alarm_setting_idx_hour
                \<or> setting_state state = alarm_setting_idx_minute
             then (let (state1, rs) = abort_quick_ticks state
                   in Inr (w\<lparr>alarm_ctx := state1\<rparr>, rs))
             else Inr (w, []))
          else Inr (w\<lparr>wait_ticks := - 1\<rparr>, [])
      | EVENT_BACKGROUND_TASK \<Rightarrow>
          (case alarm_play_alarm (buzzer_or_led_enabled env) state of
             Inl e \<Rightarrow> Inl e
           | Inr rs \<Rightarrow> Inr (w, rs))
      | EVENT_TIMEOUT \<Rightarrow> Inr (w, [Move_to_face 0])
      | EVENT_LIGHT_BUTTON_DOWN \<Rightarrow> Inr (w, [])
      | _ \<Rightarrow> Inr (w, [Default_loop_handler event]))"

section \<open>The timer face\<close>

subsection \<open>Data\<close>

text \<open>
  \<^verbatim>\<open>timer_mode_t\<close>. The C switches on the mode carry a \<^verbatim>\<open>default\<close> branch for values
  outside the enumeration; the datatype has none.
\<close>

datatype timer_mode = waiting | running | setting | pausing

text \<open>
  \<^verbatim>\<open>timer_setting_t\<close> is a union of the four bytes \<^verbatim>\<open>unit.seconds\<close>, \<^verbatim>\<open>unit.minutes\<close>,
  \<^verbatim>\<open>unit.hours\<close>, \<^verbatim>\<open>unit.repeat\<close> with the 32-bit \<^verbatim>\<open>value\<close>. Its declaration is in
  \<^verbatim>\<open>timer_face.h\<close>; the layout is the one \<^verbatim>\<open>timer_face.c\<close> relies on: the default
  \<^verbatim>\<open>0x000100\<close> is commented "1 min", so the minutes are bits 8 to 15, and the mask
  \<^verbatim>\<open>0xFFFFFF\<close> selects the duration, so the repeat flag is the top byte.
\<close>

record timer_setting =
  seconds :: "8 word"
  minutes :: "8 word"
  hours :: "8 word"
  repeat :: bool

definition timer_value :: "timer_setting \<Rightarrow> 32 word" where
  "timer_value t =
     word_of_nat (unat (seconds t) + 2 ^ 8 * unat (minutes t) + 2 ^ 16 * unat (hours t)
                  + 2 ^ 24 * (if repeat t then 1 else 0))"

definition timer_of_value :: "32 word \<Rightarrow> timer_setting" where
  "timer_of_value v =
     \<lparr>seconds = ucast v, minutes = ucast (drop_bit 8 v), hours = ucast (drop_bit 16 v),
      repeat = ((ucast (drop_bit 24 v) :: 8 word) \<noteq> 0)\<rparr>"

definition default_timer_value :: "32 word" where
  "default_timer_value = 0x000100"

text \<open>
  \<^verbatim>\<open>timer_state_t\<close>, also declared in \<^verbatim>\<open>timer_face.h\<close>. The two timestamps are
  \<^verbatim>\<open>uint32_t\<close> (\<^verbatim>\<open>_draw\<close> stores their difference in one); \<^verbatim>\<open>pausing_seconds\<close> is a
  byte (\<^verbatim>\<open>_draw\<close> speaks of its 256th iteration). The width of \<^verbatim>\<open>paused_left\<close> is
  not visible in \<^verbatim>\<open>timer_face.c\<close> and is the type parameter \<open>'p\<close>. The loop counter and
  the settings cursor only ever receive a value reduced modulo 10 or 5.
\<close>

record (overloaded) 'p timer_state =
  target_ts :: "32 word"
  now_ts :: "32 word"
  paused_left :: "'p word"
  pausing_seconds :: "8 word"
  watch_face_index :: nat
  timer :: timer_setting
  loop_count :: nat
  settings_state :: nat
  erase_timer_flag :: bool
  mode :: timer_mode
  quick_cycle :: bool

text \<open>The context together with the file-level counter \<^verbatim>\<open>_beeps_to_play\<close>.\<close>

record (overloaded) 'p timer_world =
  timer_ctx :: "'p timer_state"
  beeps_to_play :: "8 word"

text \<open>
  What a call of the timer face reads from the hardware: the clock, already converted
  by \<^verbatim>\<open>watch_utility_date_time_to_unix_time\<close> with the time zone offset, and the level
  of the alarm button pin.
\<close>

record timer_env =
  rtc_unix_time :: "32 word"
  btn_alarm_level :: bool

text \<open>
  Modelled from the spec: \<^verbatim>\<open>watch_utility_offset_timestamp\<close> of \<^verbatim>\<open>watch_utility.c\<close>,
  which is not among the sources. The spec gives it as
  \<^verbatim>\<open>base + h*3600 + m*60 + s\<close>; the sum is taken in \<^verbatim>\<open>uint32_t\<close> like the timestamps.
\<close>

definition offset_timestamp :: "32 word \<Rightarrow> 8 word \<Rightarrow> 8 word \<Rightarrow> 8 word \<Rightarrow> 32 word" where
  "offset_timestamp base h m s = base + ucast h * 3600 + ucast m * 60 + ucast s"

subsection \<open>Helpers\<close>

definition signal_callback :: "8 word \<Rightarrow> 8 word \<times> request list" where
  "signal_callback b =
     (if b \<noteq> 0 then (b - 1, [Buzzer_play_sequence Sound_seq_beep True]) else (b, []))"

definition start ::
  "timer_env \<Rightarrow> ('p::len) timer_state \<Rightarrow> bool \<Rightarrow> 'p timer_state \<times> request list" where
  "start env state with_beep =
     (if timer_value (timer state) = 0 then (state, [])
      else
        let state1 = state\<lparr>now_ts := rtc_unix_time env\<rparr>;
            state2 =
              (if mode state1 = pausing
               then state1\<lparr>target_ts := now_ts state1 + ucast (paused_left state1)\<rparr>
               else state1\<lparr>target_ts :=
                      offset_timestamp (now_ts state1) (hours (timer state1))
                        (minutes (timer state1)) (seconds (timer state1))\<rparr>);
            state3 = state2\<lparr>mode := running\<rparr>
        in (state3,
            [Schedule_background_task_for_face (watch_face_index state3) (target_ts state3),
             Set_indicator WATCH_INDICATOR_BELL]
            @ (if with_beep then [Buzzer_play_sequence Sound_seq_start False] else [])))"

definition draw :: "('p::len) timer_state \<Rightarrow> nat \<Rightarrow> request list" where
  "draw state subsec =
     (let rest = [Display_string 3,
                  (if repeat (timer state) then Set_indicator WATCH_INDICATOR_LAP
                   else Clear_indicator WATCH_INDICATOR_LAP)]
      in case mode state of
           pausing \<Rightarrow>
             (if unat (pausing_seconds state) mod 2 \<noteq> 0
              then [Clear_indicator WATCH_INDICATOR_BELL]
              else [Set_indicator WATCH_INDICATOR_BELL])
             @ (if pausing_seconds state \<noteq> 1 then [] else Set_colon # rest)
         | running \<Rightarrow> Set_colon # rest
         | setting \<Rightarrow>
             (if settings_state state = 0 then Clear_colon
              else if settings_state state = 4 then Clear_colon
              else Set_colon) # rest
         | waiting \<Rightarrow> Set_colon # rest)"

definition reset :: "('p::len) timer_state \<Rightarrow> 'p timer_state \<times> request list" where
  "reset state =
     (state\<lparr>mode := waiting\<rparr>,
      [Cancel_background_task_for_face (watch_face_index state),
       Clear_indicator WATCH_INDICATOR_BELL])"

definition resume_setting :: "('p::len) timer_state \<Rightarrow> 'p timer_state \<times> request list" where
  "resume_setting state =
     (state\<lparr>settings_state := 0, mode := waiting\<rparr>, [Request_tick_frequency 1])"

definition settings_increment :: "('p::len) timer_state \<Rightarrow> 'p timer_state" where
  "settings_increment state =
     (let t = timer state in
      if settings_state state = 0 then state\<lparr>erase_timer_flag := \<not> erase_timer_flag state\<rparr>
      else if settings_state state = 1 then
        state\<lparr>timer := t\<lparr>hours := word_of_nat ((unat (hours t) + 1) mod 24)\<rparr>\<rparr>
      else if settings_state state = 2 then
        state\<lparr>timer := t\<lparr>minutes := word_of_nat ((unat (minutes t) + 1) mod 60)\<rparr>\<rparr>
      else if settings_state state = 3 then
        state\<lparr>timer := t\<lparr>seconds := word_of_nat ((unat (seconds t) + 1) mod 60)\<rparr>\<rparr>
      else if settings_state state = 4 then state\<lparr>timer := t\<lparr>repeat := \<not> repeat t\<rparr>\<rparr>
      else state)"

definition abort_quick_cycle :: "('p::len) timer_state \<Rightarrow> 'p timer_state \<times> request list" where
  "abort_quick_cycle state =
     (if quick_cycle state then (state\<lparr>quick_cycle := False\<rparr>, [Request_tick_frequency 4])
      else (state, []))"

definition check_for_signal :: "8 word \<Rightarrow> bool \<times> 8 word" where
  "check_for_signal b = (if b \<noteq> 0 then (True, 0) else (False, b))"

subsection \<open>Setup, activation, resign\<close>

text \<open>
  \<^verbatim>\<open>timer_face_setup\<close> on a context not yet allocated: the state is zeroed, then the
  face index and the default timer are stored. The zeroed mode is \<^verbatim>\<open>waiting\<close>, the idle
  state in which the specification has the face begin. \<^verbatim>\<open>_beeps_to_play\<close> is a
  zero-initialised static.
\<close>

definition timer_face_setup :: "nat \<Rightarrow> ('p::len) timer_world" where
  "timer_face_setup face_index =
     \<lparr>timer_ctx =
        \<lparr>target_ts = 0, now_ts = 0, paused_left = 0, pausing_seconds = 0,
         watch_face_index = face_index, timer = timer_of_value default_timer_value,
         loop_count = 0, settings_state = 0, erase_timer_flag = False, mode = waiting,
         quick_cycle = False\<rparr>,
      beeps_to_play = 0\<rparr>"

definition timer_face_activate ::
  "timer_env \<Rightarrow> ('p::len) timer_world \<Rightarrow> 'p timer_world \<times> request list" where
  "timer_face_activate env w =
     (let state = timer_ctx w in
      if mode state = running
      then (w\<lparr>timer_ctx := state\<lparr>now_ts := rtc_unix_time env\<rparr>\<rparr>,
            [Display_string 0, Set_colon, Set_indicator WATCH_INDICATOR_BELL])
      else (w\<lparr>timer_ctx := state\<lparr>pausing_seconds := 1\<rparr>, beeps_to_play := 0\<rparr>,
            [Display_string 0, Set_colon]))"

definition timer_face_resign :: "('p::len) timer_world \<Rightarrow> 'p timer_world \<times> request list" where
  "timer_face_resign w =
     (let state = timer_ctx w in
      if mode state = setting
      then (w\<lparr>timer_ctx := state\<lparr>settings_state := 0, mode := waiting\<rparr>\<rparr>, [])
      else (w, []))"

subsection \<open>The event loop\<close>

text \<open>The \<^verbatim>\<open>setting\<close> branch of \<^verbatim>\<open>EVENT_LIGHT_BUTTON_UP\<close>: the cursor advance.\<close>

definition cursor_advance :: "('p::len) timer_state \<Rightarrow> 'p timer_state \<times> request list" where
  "cursor_advance state =
     (let state1 = (if erase_timer_flag state
                    then state\<lparr>timer := timer_of_value 0, erase_timer_flag := False\<rparr>
                    else state);
          state2 = state1\<lparr>settings_state := (settings_state state1 + 1) mod 5\<rparr>
      in if settings_state state2 = 0 then resume_setting state2
         else if settings_state state2 = 4 \<and> timer_value (timer state2) AND 0xFFFFFF = 0
         then (state2\<lparr>settings_state := 1\<rparr>, [])
         else (state2, []))"

text \<open>The \<^verbatim>\<open>EVENT_BACKGROUND_TASK\<close> branch: the timer has run out.\<close>

definition background_task ::
  "timer_env \<Rightarrow> ('p::len) timer_world \<Rightarrow> 'p timer_world \<times> request list" where
  "background_task env w =
     (let (state1, rs1) = reset (timer_ctx w) in
      if repeat (timer state1) then
        (let state2 = state1\<lparr>loop_count := (loop_count state1 + 1) mod 10\<rparr>;
             (state3, rs3) = start env state2 False
         in (\<lparr>timer_ctx = state3, beeps_to_play = 4\<rparr>,
             Buzzer_play_sequence Sound_seq_beep True # rs1 @ rs3))
      else
        (\<lparr>timer_ctx = state1\<lparr>loop_count := 0\<rparr>, beeps_to_play = 4\<rparr>,
         Buzzer_play_sequence Sound_seq_beep True # rs1))"

text \<open>\<^verbatim>\<open>timer_face_loop\<close>; the C function always returns true.\<close>

definition timer_face_loop ::
  "timer_env \<Rightarrow> movement_event \<Rightarrow> movement_settings \<Rightarrow> ('p::len) timer_world
     \<Rightarrow> 'p timer_world \<times> request list" where
  "timer_face_loop env event sett w =
     (let state = timer_ctx w; ss = subsecond event in
      case event_type event of
        EVENT_ACTIVATE \<Rightarrow> (w, draw state ss)
      | EVENT_TICK \<Rightarrow>
          if mode state = running then
            (let state1 = state\<lparr>now_ts := now_ts state + 1\<rparr>
             in (w\<lparr>timer_ctx := state1\<rparr>, draw state1 ss))
          else if mode state = pausing then
            (let state1 = state\<lparr>pausing_seconds := pausing_seconds state + 1\<rparr>
             in (w\<lparr>timer_ctx := state1\<rparr>, draw state1 ss))
          else if quick_cycle state then
            (if btn_alarm_level env then
               (let state1 = settings_increment state
                in (w\<lparr>timer_ctx := state1\<rparr>, draw state1 0))
             else
               (let (state1, rs) = abort_quick_cycle state
                in (w\<lparr>timer_ctx := state1\<rparr>, rs @ draw state1 ss)))
          else (w, draw state ss)
      | EVENT_LIGHT_BUTTON_UP \<Rightarrow>
          (case mode state of
             setting \<Rightarrow>
               (let (state1, rs) = cursor_advance state
                in (w\<lparr>timer_ctx := state1\<rparr>, rs @ draw state1 ss))
           | _ \<Rightarrow> (w, Illuminate_led # draw state ss))
      | EVENT_ALARM_BUTTON_UP \<Rightarrow>
          (let (state1, rs1) = abort_quick_cycle state;
               (sig, b1) = check_for_signal (beeps_to_play w)
           in if sig then (w\<lparr>timer_ctx := state1, beeps_to_play := b1\<rparr>, rs1)
              else
                (case mode state1 of
                   running \<Rightarrow>
                     (let state2 = state1\<lparr>mode := pausing, pausing_seconds := 0,
                                     paused_left := ucast (target_ts state1 - now_ts state1)\<rparr>
                      in (w\<lparr>timer_ctx := state2, beeps_to_play := b1\<rparr>,
                          rs1 @ [Cancel_background_task] @ draw state2 ss))
                 | pausing \<Rightarrow>
                     (let (state2, rs2) = start env state1 False
                      in (w\<lparr>timer_ctx := state2, beeps_to_play := b1\<rparr>,
                          rs1 @ rs2 @ draw state2 ss))
                 | waiting \<Rightarrow>
                     (w\<lparr>timer_ctx := state1, beeps_to_play := b1\<rparr>, rs1 @ draw state1 ss)
                 | setting \<Rightarrow>
                     (let state2 = settings_increment state1
                      in (w\<lparr>timer_ctx := state2, beeps_to_play := b1\<rparr>,
                          rs1 @ draw state2 0))))
      | EVENT_LIGHT_LONG_PRESS \<Rightarrow>
          if mode state = waiting then
            (let state1 = state\<lparr>mode := setting, settings_state := 0,
                            erase_timer_flag := False\<rparr>
             in (w\<lparr>timer_ctx := state1\<rparr>, Request_tick_frequency 4 # draw state1 ss))
          else if mode state = setting then
            (let (state1, rs) = resume_setting state
             in (w\<lparr>timer_ctx := state1\<rparr>, rs @ draw state1 ss))
          else (w, draw state ss)
      | EVENT_BACKGROUND_TASK \<Rightarrow> background_task env w
      | EVENT_ALARM_LONG_PRESS \<Rightarrow>
          (case mode state of
             setting \<Rightarrow>
               (if settings_state state = 1 \<or> settings_state state = 2
                   \<or> settings_state state = 3
                then (let state1 = state\<lparr>quick_cycle := True\<rparr>
                      in (w\<lparr>timer_ctx := state1\<rparr>,
                          Request_tick_frequency 8 # draw state1 ss))
                else (w, draw state ss))
           | waiting \<Rightarrow>
               (let (state1, rs) = start env state True
                in (w\<lparr>timer_ctx := state1\<rparr>, rs @ draw state1 ss))
           | _ \<Rightarrow>
               (let (state1, rs) = reset state;
                    state2 = state1\<lparr>loop_count := 0\<rparr>
                in (w\<lparr>timer_ctx := state2\<rparr>,
                    rs @ (if button_should_sound sett then [Buzzer_play_note BUZZER_NOTE_C7 50]
                          else [])
                    @ draw state2 ss)))
      | EVENT_ALARM_LONG_UP \<Rightarrow>
          (let (state1, rs) = abort_quick_cycle state in (w\<lparr>timer_ctx := state1\<rparr>, rs))
      | EVENT_MODE_LONG_PRESS \<Rightarrow>
          (let (state1, rs) = abort_quick_cycle state
           in (w\<lparr>timer_ctx := state1\<rparr>, rs @ [Move_to_face 0]))
      | EVENT_TIMEOUT \<Rightarrow>
          (let (state1, rs) = abort_quick_cycle state
           in (w\<lparr>timer_ctx := state1\<rparr>, rs @ [Move_to_face 0]))
      | EVENT_LIGHT_BUTTON_DOWN \<Rightarrow> (w, [])
      | _ \<Rightarrow> (w, [Default_loop_handler event]))"

section \<open>Running the faces, and the reference notions of the specification\<close>

subsection \<open>Sequences of calls\<close>








text \<open>The timer face after a series of events, each with what the hardware reads then.\<close>

fun timer_run ::
  "movement_settings \<Rightarrow> (timer_env \<times> movement_event) list \<Rightarrow> ('p::len) timer_world
     \<Rightarrow> 'p timer_world" where
  "timer_run sett [] w = w"
| "timer_run sett (ee # es) w = timer_run sett es (fst (timer_face_loop (fst ee) (snd ee) sett w))"

text \<open>
  The states of the timer face the host can bring about: after setup, any event, any
  activation or resignation of the face, and any completion callback of the buzzer.
\<close>

inductive timer_reachable :: "('p::len) timer_world \<Rightarrow> bool" where
  reach_setup: "timer_reachable (timer_face_setup face_index)"
| reach_loop: "timer_reachable w \<Longrightarrow> timer_reachable (fst (timer_face_loop env event sett w))"
| reach_activate: "timer_reachable w \<Longrightarrow> timer_reachable (fst (timer_face_activate env w))"
| reach_resign: "timer_reachable w \<Longrightarrow> timer_reachable (fst (timer_face_resign w))"
| reach_callback:
    "timer_reachable w \<Longrightarrow>
     timer_reachable (w\<lparr>beeps_to_play := fst (signal_callback (beeps_to_play w))\<rparr>)"

text \<open>
  The cursor is one of 0 to 4, and while setting an erase request is pending only with
  the cursor at 0.
\<close>

definition cursor_ok :: "('p::len) timer_state \<Rightarrow> bool" where
  "cursor_ok state =
     (settings_state state < 5
      \<and> (if mode state = setting \<and> erase_timer_flag state then settings_state state = 0
          else True))"

text \<open>The duration of a timer setting is unset: hours, minutes and seconds are zero.\<close>

definition duration_unset :: "timer_setting \<Rightarrow> bool" where
  "duration_unset t = (hours t = 0 \<and> minutes t = 0 \<and> seconds t = 0)"

text \<open>The invariant in question: an unset duration comes with a cleared repeat flag.\<close>

definition unset_implies_no_repeat :: "timer_setting \<Rightarrow> bool" where
  "unset_implies_no_repeat t = (\<not> duration_unset t \<or> \<not> repeat t)"

text \<open>
  The event performs a field increment: it reaches a call of \<^verbatim>\<open>_settings_increment\<close>,
  from the quick-cycle tick or from the release of the alarm button while setting.
\<close>

definition performs_settings_increment ::
  "timer_env \<Rightarrow> movement_event \<Rightarrow> ('p::len) timer_world \<Rightarrow> bool" where
  "performs_settings_increment env event w =
     ((event_type event = EVENT_TICK \<and> mode (timer_ctx w) \<noteq> running
         \<and> mode (timer_ctx w) \<noteq> pausing \<and> quick_cycle (timer_ctx w) \<and> btn_alarm_level env)
      \<or> (event_type event = EVENT_ALARM_BUTTON_UP \<and> beeps_to_play w = 0
         \<and> mode (timer_ctx w) = setting))"

text \<open>
  The event increments a field of the duration: a field increment with the cursor on
  the hours, the minutes or the seconds.
\<close>

definition performs_duration_increment ::
  "timer_env \<Rightarrow> movement_event \<Rightarrow> ('p::len) timer_world \<Rightarrow> bool" where
  "performs_duration_increment env event w =
     (performs_settings_increment env event w
      \<and> (settings_state (timer_ctx w) = 1 \<or> settings_state (timer_ctx w) = 2
          \<or> settings_state (timer_ctx w) = 3))"

text \<open>The cursor is on the repeat toggle only with a duration set.\<close>

definition toggle_ok :: "('p::len) timer_state \<Rightarrow> bool" where
  "toggle_ok state = (if settings_state state = 4 then \<not> duration_unset (timer state) else True)"

subsection \<open>The day patterns of the specification\<close>

text \<open>
  The specification's \<^verbatim>\<open>dayPatternMatches(pattern, weekdayIdx)\<close>: EveryDay is always
  true; a specific weekday matches only that index; Workdays matches indices 0 to 4;
  Weekend matches indices 5 and 6.
\<close>

definition spec_day_pattern_matches :: "nat \<Rightarrow> nat \<Rightarrow> bool" where
  "spec_day_pattern_matches pattern weekday_idx =
     (if pattern = ALARM_DAY_EACH_DAY then True
      else if pattern < 7 then weekday_idx = pattern
      else if pattern = ALARM_DAY_WORKDAY then weekday_idx \<le> 4
      else if pattern = ALARM_DAY_WEEKEND then weekday_idx = 5 \<or> weekday_idx = 6
      else False)"

subsection \<open>The civil calendar\<close>

text \<open>
  The reference for \<^verbatim>\<open>_get_weekday_idx\<close>: the Gregorian calendar, counted in days from
  Saturday 2000-01-01, with Monday as weekday 0.
\<close>

definition is_leap_year :: "nat \<Rightarrow> bool" where
  "is_leap_year y = (y mod 4 = 0 \<and> (y mod 100 \<noteq> 0 \<or> y mod 400 = 0))"

definition days_in_month :: "nat \<Rightarrow> nat \<Rightarrow> nat" where
  "days_in_month y m =
     (if m = 2 then (if is_leap_year y then 29 else 28)
      else if m = 4 \<or> m = 6 \<or> m = 9 \<or> m = 11 then 30 else 31)"

text \<open>The days from 2000-01-01 to the first of January of the year \<open>2000 + k\<close>.\<close>

primrec days_before_year :: "nat \<Rightarrow> nat" where
  "days_before_year 0 = 0"
| "days_before_year (Suc k) =
     days_before_year k + (if is_leap_year (2000 + k) then 366 else 365)"

text \<open>The days of the first \<open>n\<close> months of year \<open>y\<close>.\<close>

primrec days_before_month :: "nat \<Rightarrow> nat \<Rightarrow> nat" where
  "days_before_month y 0 = 0"
| "days_before_month y (Suc n) = days_before_month y n + days_in_month y (Suc n)"

definition civil_weekday :: "nat \<Rightarrow> nat \<Rightarrow> nat \<Rightarrow> nat" where
  "civil_weekday y m d =
     (5 + days_before_year (y - 2000) + days_before_month y (m - 1) + (d - 1)) mod 7"

definition valid_date :: "nat \<Rightarrow> nat \<Rightarrow> nat \<Rightarrow> bool" where
  "valid_date y m d = (1 \<le> m \<and> m \<le> 12 \<and> 1 \<le> d \<and> d \<le> days_in_month y m)"

subsection \<open>The scenarios of the specification\<close>

text \<open>
  The alarm scenario: hour 7, minute 30, EveryDay, enabled, on a freshly set up face. The
  clock has a six-bit year field here, 2020 being year 0.
\<close>

definition scenario_alarm :: alarm_world where
  "scenario_alarm =
     \<lparr>alarm_ctx =
        \<lparr>setting_state = 0, alarm_handled_minute = - 1, alarm_quick_ticks = False,
         is_setting = False,
         alarm = \<lparr>day = ALARM_DAY_EACH_DAY, hour = 7, minute = 30, beeps = 5, pitch = 1,
                  enabled = True\<rparr>\<rparr>,
      wait_ticks = - 1,
      settings = \<lparr>clock_mode_24h = True, button_should_sound = False, alarm_enabled = False\<rparr>\<rparr>"

definition march_2024 :: "nat \<Rightarrow> nat \<Rightarrow> nat \<Rightarrow> 6 watch_date_time" where
  "march_2024 d h m =
     \<lparr>unit_second = 0, unit_minute = m, unit_hour = h, unit_day = d, unit_month = 3,
      unit_year = 4\<rparr>"

text \<open>
  The same clock forty years on, in March 2064 (year 44 of the field), and the alarm of
  the scenario set to Saturdays only.
\<close>

definition march_2064 :: "nat \<Rightarrow> nat \<Rightarrow> nat \<Rightarrow> 6 watch_date_time" where
  "march_2064 d h m =
     \<lparr>unit_second = 0, unit_minute = m, unit_hour = h, unit_day = d, unit_month = 3,
      unit_year = 44\<rparr>"

definition saturday_alarm :: alarm_world where
  "saturday_alarm =
     \<lparr>alarm_ctx =
        \<lparr>setting_state = 0, alarm_handled_minute = - 1, alarm_quick_ticks = False,
         is_setting = False,
         alarm = \<lparr>day = 5, hour = 7, minute = 30, beeps = 5, pitch = 1, enabled = True\<rparr>\<rparr>,
      wait_ticks = - 1,
      settings = \<lparr>clock_mode_24h = True, button_should_sound = False, alarm_enabled = False\<rparr>\<rparr>"

text \<open>
  A series of button events on the timer face: enter the settings, step to the repeat
  toggle and set it, leave; enter again, step to the minutes and press the alarm button
  59 times, so that the default minute wraps to zero; leave.
\<close>

definition press :: "movement_event_type \<Rightarrow> timer_env \<times> movement_event" where
  "press e = (\<lparr>rtc_unix_time = 0, btn_alarm_level = False\<rparr>, \<lparr>event_type = e, subsecond = 0\<rparr>)"

definition set_repeat_events :: "(timer_env \<times> movement_event) list" where
  "set_repeat_events =
     map press [EVENT_LIGHT_LONG_PRESS, EVENT_LIGHT_BUTTON_UP, EVENT_LIGHT_BUTTON_UP,
                EVENT_LIGHT_BUTTON_UP, EVENT_LIGHT_BUTTON_UP, EVENT_ALARM_BUTTON_UP,
                EVENT_LIGHT_BUTTON_UP]"

definition wrap_minutes_events :: "(timer_env \<times> movement_event) list" where
  "wrap_minutes_events =
     map press [EVENT_LIGHT_LONG_PRESS, EVENT_LIGHT_BUTTON_UP, EVENT_LIGHT_BUTTON_UP]
     @ replicate 59 (press EVENT_ALARM_BUTTON_UP)
     @ [press EVENT_LIGHT_LONG_PRESS]"

definition no_settings :: movement_settings where
  "no_settings = \<lparr>clock_mode_24h = False, button_should_sound = False, alarm_enabled = False\<rparr>"

text \<open>
  The worlds those events lead to from setup, for a 32-bit \<^verbatim>\<open>paused_left\<close>: the
  default timer of one minute with the repeat flag set, and then with its minute wrapped.
\<close>

definition repeating_timer :: "32 timer_world" where
  "repeating_timer = timer_run no_settings set_repeat_events (timer_face_setup 0)"

definition unset_repeating_timer :: "32 timer_world" where
  "unset_repeating_timer =
     timer_run no_settings wrap_minutes_events repeating_timer"

text \<open>
  The timer scenario: the default timer of one minute, \<^verbatim>\<open>paused_left\<close> sixteen bits
  wide, started by a long press of the alarm button with the clock at 1000; and the same
  face in its settings, entered by a long press of the light button.
\<close>

definition press_at :: "32 word \<Rightarrow> movement_event_type \<Rightarrow> timer_env \<times> movement_event" where
  "press_at t e = (\<lparr>rtc_unix_time = t, btn_alarm_level = False\<rparr>, \<lparr>event_type = e, subsecond = 0\<rparr>)"

definition started_timer :: "16 timer_world" where
  "started_timer = timer_run no_settings [press_at 1000 EVENT_ALARM_LONG_PRESS] (timer_face_setup 0)"

definition setting_timer :: "16 timer_world" where
  "setting_timer = timer_run no_settings [press EVENT_LIGHT_LONG_PRESS] (timer_face_setup 0)"

text \<open>
  A timer of twenty hours, set through the buttons: enter the settings, ask for the
  erase and advance (the timer is zeroed, the cursor on the hours), press the alarm
  button twenty times, leave.
\<close>

definition twenty_hour_events :: "(timer_env \<times> movement_event) list" where
  "twenty_hour_events =
     map press [EVENT_LIGHT_LONG_PRESS, EVENT_ALARM_BUTTON_UP, EVENT_LIGHT_BUTTON_UP]
     @ replicate 20 (press EVENT_ALARM_BUTTON_UP)
     @ [press EVENT_LIGHT_LONG_PRESS]"

definition twenty_hour_timer :: "16 timer_world" where
  "twenty_hour_timer = timer_run no_settings twenty_hour_events (timer_face_setup 0)"

text \<open>Start with the clock at 1000, release the alarm button twice: pause and resume.\<close>

definition start_pause_resume :: "(timer_env \<times> movement_event) list" where
  "start_pause_resume =
     [press_at 1000 EVENT_ALARM_LONG_PRESS, press_at 1000 EVENT_ALARM_BUTTON_UP,
      press_at 1000 EVENT_ALARM_BUTTON_UP]"

section \<open>The weekday of a date\<close>

lemma is_leap_year_2000: 
  assumes "k < 100" shows "is_leap_year (2000 + k) = (k mod 4 = 0)"
proof -
  have a: "(2000 + k) mod 4 = k mod 4"
    using mod_add_left_eq [of 2000 4 k] by simp
  have b: "(2000 + k) mod 100 = k"
    using mod_add_left_eq [of 2000 100 k] assms by simp
  have c: "(2000 + k) mod 400 = k"
    using mod_add_left_eq [of 2000 400 k] assms by simp
  show ?thesis unfolding is_leap_year_def a b c by auto
qed

lemma days_before_year_closed: "k \<le> 100 \<Longrightarrow> days_before_year k = 365 * k + (k + 3) div 4"
proof (induction k)
  case 0 show ?case by simp
next
  case (Suc k)
  then have "k < 100" by simp
  with Suc show ?case by (simp add: is_leap_year_2000) presburger
qed



lemma mod7_eqI: "a + 7 * s = b + 7 * t \<Longrightarrow> a mod 7 = b mod (7::nat)"
  by (metis mod_mult_self2)

lemma mod7_add_cong: "b mod 7 = c mod 7 \<Longrightarrow> (a + b) mod 7 = (a + c) mod (7::nat)"
  by (metis mod_add_right_eq)

lemma days_before_month_table:
  "map (days_before_month y) [0, 1, 2, 3, 4, 5, 6, 7, 8, 9, 10, 11] =
   (let l = (if is_leap_year y then 1 else 0)
    in [0, 31, 59 + l, 90 + l, 120 + l, 151 + l, 181 + l, 212 + l, 243 + l, 273 + l,
        304 + l, 334 + l])"
  by (simp add: eval_nat_numeral days_in_month_def Let_def)


lemma late_months:
  "3 \<le> m \<Longrightarrow> m \<le> 12 \<Longrightarrow>
   m = 3 \<or> m = 4 \<or> m = 5 \<or> m = 6 \<or> m = 7 \<or> m = 8 \<or> m = 9 \<or> m = 10 \<or> m = 11 \<or> m = (12::nat)"
  by arith

lemma days_before_month_mod7_late:
  assumes "3 \<le> m" "m \<le> 12"
  shows "days_before_month y (m - 1) mod 7
         = ((13 * (m + 1)) div 5 + (if is_leap_year y then 1 else 0)) mod 7"
  using late_months [OF assms] days_before_month_table [of y]
  by (elim disjE) (simp_all add: Let_def)

lemma days_before_month_mod7_early:
  assumes "1 \<le> m" "m \<le> 2"
  shows "days_before_month y (m - 1) mod 7 = ((13 * (m + 12 + 1)) div 5 + 517) mod 7"
proof -
  have "m = 1 \<or> m = 2" using assms by arith
  then show ?thesis by (elim disjE) (simp_all add: days_in_month_def)
qed

lemma quarter_late: "(k + 3) div 4 + (if k mod 4 = 0 then 1 else 0) = k div 4 + (1::nat)"
  by presburger

lemma quarter_early: "1 \<le> k \<Longrightarrow> (k + 3) div 4 = (k - 1) div 4 + (1::nat)"
  by presburger

lemma zeller_civil_late:
  assumes m: "3 \<le> m" "m \<le> 12" and d: "1 \<le> d" and k: "k \<le> 99"
  shows "(d + (13 * (m + 1)) div 5 + k + k div 4 + 525 - 2) mod 7 = civil_weekday (2000 + k) m d"
proof -
  define X where "X = k div 4"
  define Q where "Q = (k + 3) div 4"
  define l :: nat where "l = (if is_leap_year (2000 + k) then 1 else 0)"
  define z where "z = (13 * (m + 1)) div 5"
  define A where "A = 5 + days_before_year (2000 + k - 2000) + (d - 1)"
  have dby: "days_before_year (2000 + k - 2000) = 365 * k + Q"
    using k by (simp add: days_before_year_closed Q_def)
  have "is_leap_year (2000 + k) = (k mod 4 = 0)"
    using k by (simp add: is_leap_year_2000)
  then have QX: "Q + l = X + 1"
    unfolding Q_def l_def X_def using quarter_late [of k] by simp
  have "civil_weekday (2000 + k) m d = (A + days_before_month (2000 + k) (m - 1)) mod 7"
    by (simp add: civil_weekday_def A_def add_ac)
  also have "\<dots> = (A + (z + l)) mod 7"
    unfolding z_def l_def by (rule mod7_add_cong) (rule days_before_month_mod7_late [OF m])
  also have "\<dots> = (d + z + k + X + 525 - 2) mod 7"
  proof (rule mod7_eqI)
    show "A + (z + l) + 7 * 74 = d + z + k + X + 525 - 2 + 7 * (52 * k)"
      unfolding A_def dby using QX d by linarith
  qed
  finally show ?thesis by (simp add: z_def X_def)
qed

lemma zeller_civil_early:
  assumes m: "1 \<le> m" "m \<le> 2" and d: "1 \<le> d" and k: "1 \<le> k" "k \<le> 99"
  shows "(d + (13 * (m + 12 + 1)) div 5 + (k - 1) + (k - 1) div 4 + 525 - 2) mod 7
         = civil_weekday (2000 + k) m d"
proof -
  define X where "X = (k - 1) div 4"
  define Q where "Q = (k + 3) div 4"
  define z where "z = (13 * (m + 12 + 1)) div 5"
  define A where "A = 5 + days_before_year (2000 + k - 2000) + (d - 1)"
  have dby: "days_before_year (2000 + k - 2000) = 365 * k + Q"
    using k by (simp add: days_before_year_closed Q_def)
  have QX: "Q = X + 1"
    unfolding Q_def X_def using quarter_early [OF k(1)] .
  have "civil_weekday (2000 + k) m d = (A + days_before_month (2000 + k) (m - 1)) mod 7"
    by (simp add: civil_weekday_def A_def add_ac)
  also have "\<dots> = (A + (z + 517)) mod 7"
    unfolding z_def by (rule mod7_add_cong) (rule days_before_month_mod7_early [OF m])
  also have "\<dots> = (d + z + (k - 1) + X + 525 - 2) mod 7"
  proof (rule mod7_eqI)
    show "A + (z + 517) + 7 * 0 = d + z + (k - 1) + X + 525 - 2 + 7 * (52 * k)"
      unfolding A_def dby using QX d k(1) by linarith
  qed
  finally show ?thesis by (simp add: z_def X_def)
qed



lemma unat_year_plus_20:
  fixes y :: "'y::len word"
  assumes "unat y + 20 < 2 ^ LENGTH('y)"
  shows "unat (y + 20) = unat y + 20"
proof -
  have "(20::nat) < 2 ^ LENGTH('y)" using assms by simp
  then have t: "unat (20 :: 'y word) = 20"
    by (simp add: take_bit_nat_eq_self)
  then show ?thesis using assms by (simp add: unat_add_lem [THEN iffD1])
qed

text \<open>
  Where the sum \<^verbatim>\<open>year + 20\<close> does not overflow the year field and the year stays
  within the century, \<^verbatim>\<open>_get_weekday_idx\<close> returns the weekday of the civil calendar,
  Monday being 0.
\<close>

lemma get_weekday_idx_civil_no_overflow:
  fixes dt :: "('y::len) watch_date_time"
  assumes v: "valid_date (2020 + unat (unit_year dt)) (unit_month dt) (unit_day dt)"
      and fit: "unat (unit_year dt) + 20 < 2 ^ LENGTH('y)"
      and c: "unat (unit_year dt) + 20 \<le> 99"
  shows "get_weekday_idx dt < 7 \<and>
         get_weekday_idx dt
           = civil_weekday (2020 + unat (unit_year dt)) (unit_month dt) (unit_day dt)"
proof -
  define k where "k = unat (unit_year dt) + 20"
  have y0: "unat (unit_year dt + 20) = k"
    unfolding k_def by (rule unat_year_plus_20 [OF fit])
  have ne: "unit_year dt + 20 \<noteq> 0"
    using y0 by (auto simp: k_def)
  have "unat (unit_year dt + 20 - 1) = k - 1"
    using unat_minus_one [OF ne] y0 by simp
  moreover have "unit_year dt + 20 - 1 = 19 + unit_year dt" by simp
  ultimately have y1: "unat (19 + unit_year dt) = k - 1" by simp
  have yk: "2020 + unat (unit_year dt) = 2000 + k" by (simp add: k_def)
  from v have m: "1 \<le> unit_month dt" "unit_month dt \<le> 12" and d: "1 \<le> unit_day dt"
    by (simp_all add: valid_date_def)
  have k: "1 \<le> k" "k \<le> 99" using c by (simp_all add: k_def)
  have "get_weekday_idx dt = civil_weekday (2000 + k) (unit_month dt) (unit_day dt)"
  proof (cases "unit_month dt \<le> 2")
    case True
    then show ?thesis
      using zeller_civil_early [OF m(1) True d k]
      by (simp add: get_weekday_idx_def Let_def y1)
  next
    case False
    then have "3 \<le> unit_month dt" by simp
    from zeller_civil_late [OF this m(2) d k(2)] False show ?thesis
      by (simp add: get_weekday_idx_def Let_def y0)
  qed
  then show ?thesis by (simp add: yk get_weekday_idx_def Let_def)
qed


text \<open>The dates of the specification: 2024-01-01 is a Monday, 2024-03-01 a Friday.\<close>

lemma get_weekday_idx_2024:
  "get_weekday_idx \<lparr>unit_second = 0, unit_minute = 0, unit_hour = 0, unit_day = 1,
                     unit_month = 1, unit_year = 4 :: 6 word\<rparr> = 0
   \<and> civil_weekday 2024 1 1 = 0
   \<and> get_weekday_idx \<lparr>unit_second = 0, unit_minute = 0, unit_hour = 0, unit_day = 1,
                       unit_month = 3, unit_year = 4 :: 6 word\<rparr> = 4
   \<and> civil_weekday 2024 3 1 = 4"
  using get_weekday_idx_civil_no_overflow
          [of "\<lparr>unit_second = 0, unit_minute = 0, unit_hour = 0, unit_day = 1,
                unit_month = 1, unit_year = 4 :: 6 word\<rparr>"]
        get_weekday_idx_civil_no_overflow
          [of "\<lparr>unit_second = 0, unit_minute = 0, unit_hour = 0, unit_day = 1,
                unit_month = 3, unit_year = 4 :: 6 word\<rparr>"]
  by (simp add: valid_date_def days_in_month_def get_weekday_idx_def)

subsection \<open>The overflow of the year field\<close>

lemma civil_weekday_march_2064:
  "civil_weekday 2064 3 1 = 5" "civil_weekday 2064 3 4 = 1"
  using days_before_month_table [of 2064]
  by (simp_all add: civil_weekday_def days_before_year_closed is_leap_year_def Let_def)

lemma civil_weekday_end_of_2083: "civil_weekday 2083 12 31 = 4"
  using days_before_month_table [of 2083]
  by (simp add: civil_weekday_def days_before_year_closed is_leap_year_def Let_def)

text \<open>
  Claim C3 says that \<^verbatim>\<open>_get_weekday_idx\<close> returns the civil weekday for every valid date
  of the supported range. On a clock whose year field has six bits, holding the years
  2020 to 2083, \<^verbatim>\<open>year += 20\<close> overflows the field from 2064 on: for the valid date
  2064-03-01, a Saturday (5), the function returns 2, and for 2083-12-31, a Friday (4),
  it returns 1.
\<close>

theorem get_weekday_idx_year_overflow:
  "valid_date 2064 3 1
   \<and> civil_weekday 2064 3 1 = 5
   \<and> get_weekday_idx (march_2064 1 7 30) = 2
   \<and> valid_date 2083 12 31
   \<and> civil_weekday 2083 12 31 = 4
   \<and> get_weekday_idx \<lparr>unit_second = 0, unit_minute = 0, unit_hour = 0, unit_day = 31,
                       unit_month = 12, unit_year = 63 :: 6 word\<rparr> = 1"
  using civil_weekday_march_2064 civil_weekday_end_of_2083
  by (simp add: valid_date_def days_in_month_def get_weekday_idx_def march_2064_def)

section \<open>The alarm fire check\<close>

lemma get_weekday_idx_less_7: "get_weekday_idx now < 7"
  by (simp add: get_weekday_idx_def Let_def)

lemma wants_background_task_fires:
  "fst (alarm_face_wants_background_task now w) =
     (alarm_handled_minute (alarm_ctx w) \<noteq> int (unit_minute now)
      \<and> enabled (alarm (alarm_ctx w))
      \<and> minute (alarm (alarm_ctx w)) = unit_minute now
      \<and> hour (alarm (alarm_ctx w)) = unit_hour now
      \<and> spec_day_pattern_matches (day (alarm (alarm_ctx w))) (get_weekday_idx now))"
  using get_weekday_idx_less_7 [of now]
  by (auto simp: alarm_face_wants_background_task_def Let_def spec_day_pattern_matches_def
        ALARM_DAY_EACH_DAY_def ALARM_DAY_WORKDAY_def ALARM_DAY_WEEKEND_def)

text \<open>
  The scenario of the specification: hour 7, minute 30, EveryDay, enabled; the check at
  07:30 fires, the check at 07:31 does not.
\<close>

lemma scenario_fire_check:
  "fst (alarm_face_wants_background_task (march_2024 1 7 30) scenario_alarm)
   \<and> \<not> fst (alarm_face_wants_background_task (march_2024 1 7 31) scenario_alarm)"
  by (simp add: wants_background_task_fires scenario_alarm_def march_2024_def
        spec_day_pattern_matches_def)

text \<open>
  On the dates for which \<^verbatim>\<open>_get_weekday_idx\<close> is right, the fire check returns true
  exactly when the minute has not been handled yet, the alarm is enabled, minute and hour
  equal the configured ones, and the day pattern matches the weekday of the civil
  calendar.
\<close>

lemma wants_background_task_civil:
  fixes now :: "('y::len) watch_date_time"
  assumes "valid_date (2020 + unat (unit_year now)) (unit_month now) (unit_day now)"
      and "unat (unit_year now) + 20 < 2 ^ LENGTH('y)"
      and "unat (unit_year now) + 20 \<le> 99"
  shows "fst (alarm_face_wants_background_task now w) =
           (alarm_handled_minute (alarm_ctx w) \<noteq> int (unit_minute now)
            \<and> enabled (alarm (alarm_ctx w))
            \<and> minute (alarm (alarm_ctx w)) = unit_minute now
            \<and> hour (alarm (alarm_ctx w)) = unit_hour now
            \<and> spec_day_pattern_matches (day (alarm (alarm_ctx w)))
                 (civil_weekday (2020 + unat (unit_year now)) (unit_month now) (unit_day now)))"
  using get_weekday_idx_civil_no_overflow [OF assms]
  by (simp add: wants_background_task_fires)

text \<open>
  Claim C1 says that the fire check returns true exactly when, besides the
  deduplication, the enabled flag and the time of day, the day pattern matches today's
  weekday, a specific weekday matching only that weekday. The check takes the weekday
  from \<^verbatim>\<open>_get_weekday_idx\<close>, which is wrong once \<^verbatim>\<open>year += 20\<close> overflows the year
  field: on the six-bit clock an enabled alarm for Saturdays at 07:30, not yet handled,
  stays silent at 07:30 on Saturday 2064-03-01 and fires at 07:30 on Tuesday
  2064-03-04.
\<close>

theorem saturday_alarm_in_2064:
  "civil_weekday 2064 3 1 = 5
   \<and> spec_day_pattern_matches (day (alarm (alarm_ctx saturday_alarm))) (civil_weekday 2064 3 1)
   \<and> \<not> fst (alarm_face_wants_background_task (march_2064 1 7 30) saturday_alarm)
   \<and> civil_weekday 2064 3 4 = 1
   \<and> \<not> spec_day_pattern_matches (day (alarm (alarm_ctx saturday_alarm)))
         (civil_weekday 2064 3 4)
   \<and> fst (alarm_face_wants_background_task (march_2064 4 7 30) saturday_alarm)"
  using civil_weekday_march_2064
  by (simp add: wants_background_task_fires saturday_alarm_def march_2064_def
        spec_day_pattern_matches_def ALARM_DAY_EACH_DAY_def get_weekday_idx_def)

subsection \<open>At most one fire per minute\<close>








subsection \<open>Firing again on a later day\<close>








section \<open>The signal of a firing alarm\<close>

text \<open>
  Claim C8. On a background-task event of the alarm face, with a configured pitch of 0
  to 2: for zero beep rounds the short double beep is played (two notes of the pitch, 50
  and 70 ms, around a rest, with the buzzer switched on and off around them when it was
  off); for 1 to 9 rounds exactly that many rounds of the alarm beep; for 10 rounds the
  long signal of 20 rounds. The note is always the entry of the pitch in
  \<^verbatim>\<open>_buzzer_notes\<close>, and the state is left as it was.
\<close>

theorem alarm_background_task_signal:
  assumes "event_type event = EVENT_BACKGROUND_TASK" and "pitch (alarm (alarm_ctx w)) < 3"
  shows "alarm_face_loop env event w =
           Inr (w,
             (let note = buzzer_notes ! pitch (alarm (alarm_ctx w));
                  short_beep = [Buzzer_play_note note 50, Buzzer_play_note BUZZER_NOTE_REST 50,
                                Buzzer_play_note note 70];
                  n = beeps (alarm (alarm_ctx w))
              in if n = 0 then
                   (if buzzer_or_led_enabled env then short_beep
                    else [Enable_buzzer] @ short_beep @ [Disable_buzzer])
                 else if n = 10 then [Play_alarm_beeps 20 note]
                 else [Play_alarm_beeps n note]))"
  using assms
  by (simp add: alarm_face_loop_def alarm_play_alarm_def alarm_play_short_beep_def
        buzzer_note_def buzzer_notes_def ALARM_MAX_BEEP_ROUNDS_def Let_def)

text \<open>The default alarm (five rounds, pitch 1) plays five rounds of the note C8.\<close>

theorem alarm_background_task_signal_witness:
  "alarm_face_loop \<lparr>rtc_date_time = march_2024 1 7 30, buzzer_or_led_enabled = False\<rparr>
     \<lparr>event_type = EVENT_BACKGROUND_TASK, subsecond = 0\<rparr> scenario_alarm
   = Inr (scenario_alarm, [Play_alarm_beeps 5 BUZZER_NOTE_C8])"
  using alarm_background_task_signal
          [of "\<lparr>event_type = EVENT_BACKGROUND_TASK, subsecond = 0\<rparr>" scenario_alarm
              "\<lparr>rtc_date_time = march_2024 1 7 30, buzzer_or_led_enabled = False\<rparr>"]
  by (simp add: scenario_alarm_def buzzer_notes_def)

section \<open>Properties of the timer face\<close>

subsection \<open>The packed timer value\<close>

lemma unat_timer_value:
  "unat (timer_value t) =
     unat (seconds t) + 2 ^ 8 * unat (minutes t) + 2 ^ 16 * unat (hours t)
     + 2 ^ 24 * (if repeat t then 1 else 0)"
proof -
  have "unat (seconds t) < 2 ^ 8" "unat (minutes t) < 2 ^ 8" "unat (hours t) < 2 ^ 8"
    using unsigned_less [of "seconds t"] unsigned_less [of "minutes t"]
      unsigned_less [of "hours t"] by simp_all
  then have "unat (seconds t) + 2 ^ 8 * unat (minutes t) + 2 ^ 16 * unat (hours t)
             + 2 ^ 24 * (if repeat t then 1 else 0) < (2::nat) ^ 32"
    by (simp split: if_splits)
  then show ?thesis
    unfolding timer_value_def by (simp only: unat_of_nat) simp
qed

lemma timer_value_eq_0_iff:
  "timer_value t = 0 \<longleftrightarrow> seconds t = 0 \<and> minutes t = 0 \<and> hours t = 0 \<and> \<not> repeat t"
proof -
  have "timer_value t = 0 \<longleftrightarrow> unat (timer_value t) = 0" by (simp add: unat_0_iff)
  then show ?thesis by (simp add: unat_timer_value unat_0_iff)
qed

lemma timer_value_duration_iff: "timer_value t AND 0xFFFFFF = 0 \<longleftrightarrow> duration_unset t"
proof -
  have b: "unat (seconds t) < 2 ^ 8" "unat (minutes t) < 2 ^ 8" "unat (hours t) < 2 ^ 8"
    using unsigned_less [of "seconds t"] unsigned_less [of "minutes t"]
      unsigned_less [of "hours t"] by simp_all
  have m: "(0xFFFFFF :: 32 word) = mask 24" by (simp add: mask_eq_exp_minus_1)
  have "unat (timer_value t AND 0xFFFFFF) = unat (timer_value t) mod 2 ^ 24"
    unfolding m by (simp flip: take_bit_eq_mask add: unsigned_take_bit_eq take_bit_eq_mod unat_mod)
  also have "\<dots> = unat (seconds t) + 2 ^ 8 * unat (minutes t) + 2 ^ 16 * unat (hours t)"
    using b by (simp add: unat_timer_value)
  finally have "unat (timer_value t AND 0xFFFFFF) = 0 \<longleftrightarrow> duration_unset t"
    by (auto simp: duration_unset_def unat_0_iff)
  then show ?thesis by (simp add: unat_0_iff)
qed

lemma timer_of_value_0:
  "timer_of_value 0 = \<lparr>seconds = 0, minutes = 0, hours = 0, repeat = False\<rparr>"
  by (simp add: timer_of_value_def)

lemma timer_of_default:
  "timer_of_value default_timer_value = \<lparr>seconds = 0, minutes = 1, hours = 0, repeat = False\<rparr>"
  by (simp add: timer_of_value_def default_timer_value_def drop_bit_eq_div)

subsection \<open>Starting, and the effect of single events\<close>

lemma ucast_ucast_fits:
  fixes x :: "32 word"
  assumes "unat x < 2 ^ LENGTH('p::len)"
  shows "(ucast (ucast x :: 'p word) :: 32 word) = x"
proof -
  have "unat (ucast x :: 'p word) = unat x"
    using assms by (simp add: unsigned_ucast_eq take_bit_nat_eq_self)
  then have "unat (ucast (ucast x :: 'p word) :: 32 word) = unat x"
    using assms by (simp add: unsigned_ucast_eq unsigned_take_bit_eq take_bit_nat_eq_self)
  then show ?thesis by (simp add: word_unat_eq_iff)
qed

lemma start_refuses_zero_value:
  "timer_value (timer state) = 0 \<Longrightarrow> start env state with_beep = (state, [])"
  by (simp add: start_def)

lemma start_running:
  assumes "timer_value (timer state) \<noteq> 0"
  shows "start env state with_beep =
           (state\<lparr>now_ts := rtc_unix_time env,
                  target_ts := (if mode state = pausing
                                then rtc_unix_time env + ucast (paused_left state)
                                else offset_timestamp (rtc_unix_time env) (hours (timer state))
                                       (minutes (timer state)) (seconds (timer state))),
                  mode := running\<rparr>,
            [Schedule_background_task_for_face (watch_face_index state)
               (if mode state = pausing
                then rtc_unix_time env + ucast (paused_left state)
                else offset_timestamp (rtc_unix_time env) (hours (timer state))
                       (minutes (timer state)) (seconds (timer state))),
             Set_indicator WATCH_INDICATOR_BELL]
            @ (if with_beep then [Buzzer_play_sequence Sound_seq_start False] else []))"
  using assms by (simp add: start_def Let_def)

lemma background_task_repeat:
  assumes "repeat (timer (timer_ctx w))" "event_type event = EVENT_BACKGROUND_TASK"
  shows "timer_ctx (fst (timer_face_loop env event sett w)) =
           (timer_ctx w)\<lparr>mode := running, loop_count := (loop_count (timer_ctx w) + 1) mod 10,
                         now_ts := rtc_unix_time env,
                         target_ts := offset_timestamp (rtc_unix_time env)
                                        (hours (timer (timer_ctx w))) (minutes (timer (timer_ctx w)))
                                        (seconds (timer (timer_ctx w)))\<rparr>"
proof -
  have "timer_value (timer (timer_ctx w)) \<noteq> 0"
    using assms(1) by (simp add: timer_value_eq_0_iff)
  then show ?thesis
    using assms
    by (simp add: timer_face_loop_def background_task_def reset_def start_running Let_def)
qed

lemma background_task_no_repeat:
  assumes "\<not> repeat (timer (timer_ctx w))" "event_type event = EVENT_BACKGROUND_TASK"
  shows "timer_ctx (fst (timer_face_loop env event sett w)) =
           (timer_ctx w)\<lparr>mode := waiting, loop_count := 0\<rparr>"
  using assms by (simp add: timer_face_loop_def background_task_def reset_def Let_def)

lemma timer_run_snoc:
  "timer_run sett (es @ [ee]) w = fst (timer_face_loop (fst ee) (snd ee) sett (timer_run sett es w))"
  by (induction es arbitrary: w) simp_all

lemma expiries_repeat:
  assumes "repeat (timer (timer_ctx w))" "loop_count (timer_ctx w) = 0"
      and "\<forall>ee \<in> set es. event_type (snd ee) = EVENT_BACKGROUND_TASK"
  shows "timer (timer_ctx (timer_run sett es w)) = timer (timer_ctx w)
         \<and> loop_count (timer_ctx (timer_run sett es w)) = length es mod 10
         \<and> (es \<noteq> [] \<longrightarrow>
              mode (timer_ctx (timer_run sett es w)) = running
              \<and> now_ts (timer_ctx (timer_run sett es w)) = rtc_unix_time (fst (last es))
              \<and> target_ts (timer_ctx (timer_run sett es w)) =
                  offset_timestamp (rtc_unix_time (fst (last es)))
                    (hours (timer (timer_ctx w))) (minutes (timer (timer_ctx w)))
                    (seconds (timer (timer_ctx w))))"
  using assms(3)
proof (induction es rule: rev_induct)
  case Nil
  show ?case using assms(2) by simp
next
  case (snoc ee es)
  then have ih: "timer (timer_ctx (timer_run sett es w)) = timer (timer_ctx w)"
      "loop_count (timer_ctx (timer_run sett es w)) = length es mod 10"
    and ev: "event_type (snd ee) = EVENT_BACKGROUND_TASK"
    by simp_all
  have r: "repeat (timer (timer_ctx (timer_run sett es w)))"
    using ih(1) assms(1) by simp
  show ?case
    by (simp add: timer_run_snoc background_task_repeat [OF r ev] ih mod_Suc_eq)
qed

subsection \<open>Reaching a repeating timer with an unset duration\<close>

lemma timer_run_append:
  "timer_run sett (es @ fs) w = timer_run sett fs (timer_run sett es w)"
  by (induction es arbitrary: w) simp_all

lemma timer_run_reachable:
  "timer_reachable w \<Longrightarrow> timer_reachable (timer_run sett es w)"
  by (induction es arbitrary: w) (simp_all add: reach_loop)

lemma after_set_repeat:
  "repeating_timer =
     \<lparr>timer_ctx =
        \<lparr>target_ts = 0, now_ts = 0, paused_left = 0, pausing_seconds = 0,
         watch_face_index = 0,
         timer = \<lparr>seconds = 0, minutes = 1, hours = 0, repeat = True\<rparr>,
         loop_count = 0, settings_state = 0, erase_timer_flag = False, mode = waiting,
         quick_cycle = False\<rparr>,
      beeps_to_play = 0\<rparr>"
  by (simp add: repeating_timer_def set_repeat_events_def press_def timer_face_setup_def timer_of_default
        timer_face_loop_def cursor_advance_def resume_setting_def timer_value_duration_iff
        duration_unset_def abort_quick_cycle_def check_for_signal_def settings_increment_def
        Let_def)



lemma minute_presses:
  fixes m :: "8 word"
  assumes "unat m < 60"
  shows "timer_run sett (replicate n (press EVENT_ALARM_BUTTON_UP))
           \<lparr>timer_ctx =
              \<lparr>target_ts = tt, now_ts = nt, paused_left = pl, pausing_seconds = ps,
               watch_face_index = fi,
               timer = \<lparr>seconds = s, minutes = m, hours = h, repeat = r\<rparr>,
               loop_count = lc, settings_state = 2, erase_timer_flag = ef, mode = setting,
               quick_cycle = False\<rparr>,
            beeps_to_play = 0\<rparr>
         = \<lparr>timer_ctx =
              \<lparr>target_ts = tt, now_ts = nt, paused_left = pl, pausing_seconds = ps,
               watch_face_index = fi,
               timer = \<lparr>seconds = s, minutes = word_of_nat ((unat m + n) mod 60), hours = h,
                        repeat = r\<rparr>,
               loop_count = lc, settings_state = 2, erase_timer_flag = ef, mode = setting,
               quick_cycle = False\<rparr>,
            beeps_to_play = 0\<rparr>"
  using assms
proof (induction n arbitrary: m)
  case 0
  then show ?case by simp
next
  case (Suc n)
  define m1 :: "8 word" where "m1 = word_of_nat (Suc (unat m) mod 60)"
  have "Suc (unat m) mod 60 < 256"
    by (rule less_trans [of _ 60]) simp_all
  then have u: "unat m1 = Suc (unat m) mod 60"
    by (simp add: m1_def unat_of_nat)
  then have "unat m1 < 60" by simp
  from Suc.IH [OF this] show ?case
    by (simp add: press_def timer_face_loop_def abort_quick_cycle_def check_for_signal_def
          settings_increment_def Let_def m1_def [symmetric] u mod_add_left_eq)
qed

lemma after_wrap_minutes:
  "unset_repeating_timer =
     \<lparr>timer_ctx =
        \<lparr>target_ts = 0, now_ts = 0, paused_left = 0, pausing_seconds = 0,
         watch_face_index = 0,
         timer = \<lparr>seconds = 0, minutes = 0, hours = 0, repeat = True\<rparr>,
         loop_count = 0, settings_state = 0, erase_timer_flag = False, mode = waiting,
         quick_cycle = False\<rparr>,
      beeps_to_play = 0\<rparr>"
proof -
  have a: "timer_run no_settings
             (map press [EVENT_LIGHT_LONG_PRESS, EVENT_LIGHT_BUTTON_UP, EVENT_LIGHT_BUTTON_UP])
             repeating_timer
           = \<lparr>timer_ctx =
              \<lparr>target_ts = 0, now_ts = 0, paused_left = 0, pausing_seconds = 0,
               watch_face_index = 0,
               timer = \<lparr>seconds = 0, minutes = 1, hours = 0, repeat = True\<rparr>,
               loop_count = 0, settings_state = 2, erase_timer_flag = False, mode = setting,
               quick_cycle = False\<rparr>,
            beeps_to_play = 0\<rparr>"
    unfolding after_set_repeat
    by (simp add: press_def timer_face_loop_def cursor_advance_def resume_setting_def
          timer_value_duration_iff duration_unset_def Let_def)
  have b: "unat (1 :: 8 word) < 60" by simp
  show ?thesis
    unfolding unset_repeating_timer_def wrap_minutes_events_def timer_run_append a
      minute_presses [OF b]
    by (simp add: press_def timer_face_loop_def resume_setting_def Let_def)
qed

lemma started_timer_state:
  "started_timer =
     \<lparr>timer_ctx =
        \<lparr>target_ts = 1060, now_ts = 1000, paused_left = 0, pausing_seconds = 0,
         watch_face_index = 0,
         timer = \<lparr>seconds = 0, minutes = 1, hours = 0, repeat = False\<rparr>,
         loop_count = 0, settings_state = 0, erase_timer_flag = False, mode = running,
         quick_cycle = False\<rparr>,
      beeps_to_play = 0\<rparr>"
  by (simp add: started_timer_def press_at_def timer_face_setup_def timer_of_default
        timer_face_loop_def start_def timer_value_eq_0_iff offset_timestamp_def Let_def)

lemma setting_timer_state:
  "setting_timer =
     \<lparr>timer_ctx =
        \<lparr>target_ts = 0, now_ts = 0, paused_left = 0, pausing_seconds = 0,
         watch_face_index = 0,
         timer = \<lparr>seconds = 0, minutes = 1, hours = 0, repeat = False\<rparr>,
         loop_count = 0, settings_state = 0, erase_timer_flag = False, mode = setting,
         quick_cycle = False\<rparr>,
      beeps_to_play = 0\<rparr>"
  by (simp add: setting_timer_def press_def timer_face_setup_def timer_of_default
        timer_face_loop_def Let_def)

lemma setting_timer_reachable: "timer_reachable setting_timer"
  unfolding setting_timer_def by (intro timer_run_reachable reach_setup)

subsection \<open>Expiry and repetition\<close>

text \<open>
  Claim C6. For a timer with the repeat flag set and a loop count of 0, after any number
  N of consecutive background-task events the loop count is N mod 10 and, for N > 0, the
  timer is running with the target computed afresh from the clock read at the last
  event. Without the repeat flag a background-task event returns the mode to waiting
  and sets the loop count to 0.
\<close>

theorem background_task_loop_count:
  "(repeat (timer (timer_ctx w)) \<and> loop_count (timer_ctx w) = 0
      \<and> (\<forall>ee \<in> set es. event_type (snd ee) = EVENT_BACKGROUND_TASK)
    \<longrightarrow> loop_count (timer_ctx (timer_run sett es w)) = length es mod 10
        \<and> (es \<noteq> [] \<longrightarrow>
              mode (timer_ctx (timer_run sett es w)) = running
              \<and> now_ts (timer_ctx (timer_run sett es w)) = rtc_unix_time (fst (last es))
              \<and> target_ts (timer_ctx (timer_run sett es w)) =
                  offset_timestamp (rtc_unix_time (fst (last es)))
                    (hours (timer (timer_ctx w))) (minutes (timer (timer_ctx w)))
                    (seconds (timer (timer_ctx w)))))
   \<and> (\<not> repeat (timer (timer_ctx w)) \<and> event_type event = EVENT_BACKGROUND_TASK
      \<longrightarrow> mode (timer_ctx (fst (timer_face_loop env event sett w))) = waiting
          \<and> loop_count (timer_ctx (fst (timer_face_loop env event sett w))) = 0)"
proof (intro conjI impI)
  assume a: "repeat (timer (timer_ctx w)) \<and> loop_count (timer_ctx w) = 0
      \<and> (\<forall>ee \<in> set es. event_type (snd ee) = EVENT_BACKGROUND_TASK)"
  then have r: "repeat (timer (timer_ctx w))" and l: "loop_count (timer_ctx w) = 0"
    and e: "\<forall>ee \<in> set es. event_type (snd ee) = EVENT_BACKGROUND_TASK"
    by simp_all
  note x = expiries_repeat [OF r l e, of sett]
  from x show "loop_count (timer_ctx (timer_run sett es w)) = length es mod 10" by simp
  assume "es \<noteq> []"
  with x show "mode (timer_ctx (timer_run sett es w)) = running"
    and "now_ts (timer_ctx (timer_run sett es w)) = rtc_unix_time (fst (last es))"
    and "target_ts (timer_ctx (timer_run sett es w)) =
           offset_timestamp (rtc_unix_time (fst (last es)))
             (hours (timer (timer_ctx w))) (minutes (timer (timer_ctx w)))
             (seconds (timer (timer_ctx w)))"
    by simp_all
next
  assume a: "\<not> repeat (timer (timer_ctx w)) \<and> event_type event = EVENT_BACKGROUND_TASK"
  then have n: "\<not> repeat (timer (timer_ctx w))" and e: "event_type event = EVENT_BACKGROUND_TASK"
    by simp_all
  show "mode (timer_ctx (fst (timer_face_loop env event sett w))) = waiting"
    and "loop_count (timer_ctx (fst (timer_face_loop env event sett w))) = 0"
    by (simp_all add: background_task_no_repeat [OF n e])
qed

text \<open>
  Twelve expiries of the repeating one-minute timer leave the loop count at 2 and the
  target one minute after the clock; one expiry of the default timer, which does not
  repeat, leaves it waiting.
\<close>

theorem background_task_loop_count_witness:
  "loop_count (timer_ctx (timer_run no_settings (replicate 12 (press EVENT_BACKGROUND_TASK))
                            repeating_timer)) = 2
   \<and> mode (timer_ctx (timer_run no_settings (replicate 12 (press EVENT_BACKGROUND_TASK))
                         repeating_timer)) = running
   \<and> target_ts (timer_ctx (timer_run no_settings (replicate 12 (press EVENT_BACKGROUND_TASK))
                              repeating_timer)) = 60
   \<and> mode (timer_ctx (fst (timer_face_loop (fst (press EVENT_BACKGROUND_TASK))
                             (snd (press EVENT_BACKGROUND_TASK)) no_settings
                             (timer_face_setup 0 :: 32 timer_world)))) = waiting
   \<and> loop_count (timer_ctx (fst (timer_face_loop (fst (press EVENT_BACKGROUND_TASK))
                             (snd (press EVENT_BACKGROUND_TASK)) no_settings
                             (timer_face_setup 0 :: 32 timer_world)))) = 0"
  using background_task_loop_count
          [of repeating_timer "replicate 12 (press EVENT_BACKGROUND_TASK)" no_settings
              "snd (press EVENT_BACKGROUND_TASK)" "fst (press EVENT_BACKGROUND_TASK)"]
        background_task_loop_count
          [of "timer_face_setup 0 :: 32 timer_world" "[]" no_settings
              "snd (press EVENT_BACKGROUND_TASK)" "fst (press EVENT_BACKGROUND_TASK)"]
  by (simp add: after_set_repeat press_def offset_timestamp_def timer_face_setup_def
        timer_of_default)

subsection \<open>Resigning\<close>

text \<open>
  Claim C9. For every timer state, \<^verbatim>\<open>timer_face_resign\<close> in setting mode returns the
  mode to waiting with the settings cursor at 0; in every other mode it changes
  nothing. In every mode it makes no request to the host at all (so none that cancels
  the scheduled background task), and it leaves the pending beep countdown, both
  timestamps, the paused remainder, the timer setting and the loop count as they were.
  \<^verbatim>\<open>alarm_face_resign\<close> likewise ends the editing of the alarm and leaves the alarm
  setting and the handled minute as they were.
\<close>

theorem timer_face_resign_frame:
  "(mode (timer_ctx w) = setting \<longrightarrow>
      mode (timer_ctx (fst (timer_face_resign w))) = waiting
      \<and> settings_state (timer_ctx (fst (timer_face_resign w))) = 0)
   \<and> (mode (timer_ctx w) \<noteq> setting \<longrightarrow> fst (timer_face_resign w) = w)
   \<and> snd (timer_face_resign w) = []
   \<and> beeps_to_play (fst (timer_face_resign w)) = beeps_to_play w
   \<and> target_ts (timer_ctx (fst (timer_face_resign w))) = target_ts (timer_ctx w)
   \<and> now_ts (timer_ctx (fst (timer_face_resign w))) = now_ts (timer_ctx w)
   \<and> paused_left (timer_ctx (fst (timer_face_resign w))) = paused_left (timer_ctx w)
   \<and> pausing_seconds (timer_ctx (fst (timer_face_resign w))) = pausing_seconds (timer_ctx w)
   \<and> timer (timer_ctx (fst (timer_face_resign w))) = timer (timer_ctx w)
   \<and> loop_count (timer_ctx (fst (timer_face_resign w))) = loop_count (timer_ctx w)
   \<and> \<not> is_setting (alarm_ctx (fst (alarm_face_resign now aw)))
   \<and> alarm (alarm_ctx (fst (alarm_face_resign now aw))) = alarm (alarm_ctx aw)
   \<and> alarm_handled_minute (alarm_ctx (fst (alarm_face_resign now aw)))
       = alarm_handled_minute (alarm_ctx aw)"
  by (simp add: timer_face_resign_def alarm_face_resign_def Let_def)

text \<open>
  Resigning while the repeating timer runs with beeps pending, and resigning while the
  default timer is being set.
\<close>

theorem timer_face_resign_frame_witness:
  "fst (timer_face_resign
          (timer_run no_settings [press EVENT_BACKGROUND_TASK] repeating_timer))
     = timer_run no_settings [press EVENT_BACKGROUND_TASK] repeating_timer
   \<and> mode (timer_ctx (timer_run no_settings [press EVENT_BACKGROUND_TASK] repeating_timer))
       = running
   \<and> beeps_to_play (timer_run no_settings [press EVENT_BACKGROUND_TASK] repeating_timer) = 4
   \<and> mode (timer_ctx (fst (timer_face_resign
              (timer_run no_settings [press EVENT_LIGHT_LONG_PRESS, press EVENT_LIGHT_BUTTON_UP]
                 (timer_face_setup 0 :: 32 timer_world))))) = waiting
   \<and> settings_state (timer_ctx (fst (timer_face_resign
              (timer_run no_settings [press EVENT_LIGHT_LONG_PRESS, press EVENT_LIGHT_BUTTON_UP]
                 (timer_face_setup 0 :: 32 timer_world))))) = 0"
proof -
  have a: "mode (timer_ctx (timer_run no_settings [press EVENT_BACKGROUND_TASK] repeating_timer))
           = running"
     "beeps_to_play (timer_run no_settings [press EVENT_BACKGROUND_TASK] repeating_timer) = 4"
    by (simp_all add: after_set_repeat press_def timer_face_loop_def background_task_def
          reset_def start_def timer_value_eq_0_iff Let_def)
  have b: "mode (timer_ctx
             (timer_run no_settings [press EVENT_LIGHT_LONG_PRESS, press EVENT_LIGHT_BUTTON_UP]
                (timer_face_setup 0 :: 32 timer_world))) = setting"
    by (simp add: press_def timer_face_loop_def timer_face_setup_def cursor_advance_def
          Let_def)
  show ?thesis
    using timer_face_resign_frame
            [where w = "timer_run no_settings [press EVENT_BACKGROUND_TASK] repeating_timer"
               and aw = scenario_alarm and now = "march_2024 1 7 30"]
          timer_face_resign_frame
            [where w = "timer_run no_settings
                          [press EVENT_LIGHT_LONG_PRESS, press EVENT_LIGHT_BUTTON_UP]
                          (timer_face_setup 0 :: 32 timer_world)"
               and aw = scenario_alarm and now = "march_2024 1 7 30"]
          a b
    by simp
qed

subsection \<open>Starting a timer whose duration is unset\<close>

lemma unset_repeating_timer_reachable: "timer_reachable unset_repeating_timer"
  unfolding unset_repeating_timer_def repeating_timer_def
  by (intro timer_run_reachable reach_setup)

text \<open>
  Claim C4 says that \<^verbatim>\<open>_start\<close> changes nothing and schedules nothing whenever hours,
  minutes and seconds are zero. \<^verbatim>\<open>_start\<close> tests the whole packed value instead, so it
  refuses only when the repeat flag is clear as well. In the world reached from setup
  by setting the repeat flag and wrapping the minute, the duration is unset and a long
  press of the alarm button starts the timer: the mode becomes running, the target is
  the clock itself, and a background task is scheduled for it.
\<close>

theorem start_unset_duration_with_repeat:
  "timer_reachable unset_repeating_timer
   \<and> duration_unset (timer (timer_ctx unset_repeating_timer))
   \<and> mode (timer_ctx unset_repeating_timer) = waiting
   \<and> start \<lparr>rtc_unix_time = 1000, btn_alarm_level = False\<rparr>
         (timer_ctx unset_repeating_timer) True
       = ((timer_ctx unset_repeating_timer)
            \<lparr>now_ts := 1000, target_ts := 1000, mode := running\<rparr>,
          [Schedule_background_task_for_face 0 1000, Set_indicator WATCH_INDICATOR_BELL,
           Buzzer_play_sequence Sound_seq_start False])
   \<and> mode (timer_ctx (fst (timer_face_loop \<lparr>rtc_unix_time = 1000, btn_alarm_level = False\<rparr>
                              \<lparr>event_type = EVENT_ALARM_LONG_PRESS, subsecond = 0\<rparr>
                              no_settings unset_repeating_timer))) = running"
proof -
  have v: "timer_value (timer (timer_ctx unset_repeating_timer)) \<noteq> 0"
    by (simp add: after_wrap_minutes timer_value_eq_0_iff)
  have a: "duration_unset (timer (timer_ctx unset_repeating_timer))"
    "mode (timer_ctx unset_repeating_timer) = waiting"
    by (simp_all add: after_wrap_minutes duration_unset_def)
  have b: "start \<lparr>rtc_unix_time = 1000, btn_alarm_level = False\<rparr>
             (timer_ctx unset_repeating_timer) True
           = ((timer_ctx unset_repeating_timer)
                \<lparr>now_ts := 1000, target_ts := 1000, mode := running\<rparr>,
              [Schedule_background_task_for_face 0 1000, Set_indicator WATCH_INDICATOR_BELL,
               Buzzer_play_sequence Sound_seq_start False])"
    unfolding start_running [OF v]
    by (simp add: after_wrap_minutes offset_timestamp_def)
  have c: "mode (timer_ctx (fst (timer_face_loop \<lparr>rtc_unix_time = 1000, btn_alarm_level = False\<rparr>
                              \<lparr>event_type = EVENT_ALARM_LONG_PRESS, subsecond = 0\<rparr>
                              no_settings unset_repeating_timer))) = running"
    by (simp add: timer_face_loop_def a b Let_def)
  from unset_repeating_timer_reachable a b c show ?thesis by simp
qed

subsection \<open>Unset duration and repeat flag\<close>

text \<open>
  Claim C10 as stated, that in every reachable state an unset duration comes with a
  cleared repeat flag, fails: the field increment wraps, so 59 presses on the minutes
  of the default timer unset its duration and leave the repeat flag as it is.
\<close>

theorem unset_implies_no_repeat_counterexample:
  "\<not> (\<forall>w :: 32 timer_world.
        timer_reachable w \<longrightarrow> unset_implies_no_repeat (timer (timer_ctx w)))"
proof
  assume "\<forall>w :: 32 timer_world.
            timer_reachable w \<longrightarrow> unset_implies_no_repeat (timer (timer_ctx w))"
  with unset_repeating_timer_reachable
  have "unset_implies_no_repeat (timer (timer_ctx unset_repeating_timer))" by blast
  then show False
    by (simp add: after_wrap_minutes unset_implies_no_repeat_def duration_unset_def)
qed

lemma start_timer: "timer (fst (start env state b)) = timer state"
  by (simp add: start_def Let_def)

lemma cursor_advance_timer:
  "timer (fst (cursor_advance state))
   = (if erase_timer_flag state then timer_of_value 0 else timer state)"
  by (simp add: cursor_advance_def resume_setting_def Let_def)

lemma loop_timer_kept_or_erased:
  assumes "\<not> performs_settings_increment env event w"
  shows "timer (timer_ctx (fst (timer_face_loop env event sett w))) = timer (timer_ctx w)
         \<or> timer (timer_ctx (fst (timer_face_loop env event sett w))) = timer_of_value 0"
proof (cases "event_type event")
  case EVENT_TICK
  with assms show ?thesis
    by (auto simp: timer_face_loop_def performs_settings_increment_def Let_def
          abort_quick_cycle_def)
next
  case EVENT_LIGHT_BUTTON_UP
  then show ?thesis
    by (cases "mode (timer_ctx w)")
       (simp_all add: timer_face_loop_def Let_def split_def cursor_advance_timer)
next
  case EVENT_ALARM_BUTTON_UP
  with assms show ?thesis
    by (cases "mode (timer_ctx w)")
       (auto simp: timer_face_loop_def performs_settings_increment_def Let_def split_def
          abort_quick_cycle_def check_for_signal_def start_timer)
next
  case EVENT_LIGHT_LONG_PRESS
  then show ?thesis
    by (simp add: timer_face_loop_def Let_def resume_setting_def)
next
  case EVENT_BACKGROUND_TASK
  then show ?thesis
    by (simp add: timer_face_loop_def background_task_def reset_def Let_def split_def
          start_timer)
next
  case EVENT_ALARM_LONG_PRESS
  then show ?thesis
    by (cases "mode (timer_ctx w)")
       (simp_all add: timer_face_loop_def Let_def split_def start_timer reset_def)
qed (simp_all add: timer_face_loop_def Let_def abort_quick_cycle_def)

lemma unset_implies_no_repeat_value:
  "unset_implies_no_repeat t \<longleftrightarrow> (timer_value t = 0 \<longleftrightarrow> duration_unset t)"
  by (auto simp: unset_implies_no_repeat_def timer_value_eq_0_iff duration_unset_def)

lemma toggle_ok_start: "toggle_ok (fst (start env state b)) = toggle_ok state"
  by (simp add: toggle_ok_def start_def Let_def)

lemma toggle_ok_settings_increment: "toggle_ok state \<Longrightarrow> toggle_ok (settings_increment state)"
  by (auto simp: toggle_ok_def settings_increment_def Let_def duration_unset_def)

lemma toggle_ok_abort: "toggle_ok (fst (abort_quick_cycle state)) = toggle_ok state"
  by (simp add: toggle_ok_def abort_quick_cycle_def)

lemma toggle_ok_cursor_advance: "toggle_ok (fst (cursor_advance state))"
  by (simp add: toggle_ok_def cursor_advance_def resume_setting_def Let_def
        timer_value_duration_iff)

lemma toggle_ok_loop:
  assumes "toggle_ok (timer_ctx w)"
  shows "toggle_ok (timer_ctx (fst (timer_face_loop env event sett w)))"
proof (cases "event_type event")
  case EVENT_TICK
  with assms toggle_ok_settings_increment [OF assms] show ?thesis
    by (auto simp: timer_face_loop_def Let_def split_def toggle_ok_abort)
       (simp_all add: toggle_ok_def)
next
  case EVENT_LIGHT_BUTTON_UP
  with assms show ?thesis
    by (cases "mode (timer_ctx w)")
       (simp_all add: timer_face_loop_def Let_def split_def toggle_ok_cursor_advance)
next
  case EVENT_ALARM_BUTTON_UP
  have a: "toggle_ok (fst (abort_quick_cycle (timer_ctx w)))"
    using assms by (simp add: toggle_ok_abort)
  show ?thesis
  proof (cases "mode (fst (abort_quick_cycle (timer_ctx w)))")
    case waiting
    with EVENT_ALARM_BUTTON_UP a show ?thesis
      by (simp add: timer_face_loop_def Let_def split_def)
  next
    case running
    with EVENT_ALARM_BUTTON_UP a show ?thesis
      by (auto simp: timer_face_loop_def Let_def split_def toggle_ok_def)
  next
    case setting
    with EVENT_ALARM_BUTTON_UP a toggle_ok_settings_increment [OF a] show ?thesis
      by (simp add: timer_face_loop_def Let_def split_def)
  next
    case pausing
    with EVENT_ALARM_BUTTON_UP a show ?thesis
      by (simp add: timer_face_loop_def Let_def split_def toggle_ok_start)
  qed
next
  case EVENT_LIGHT_LONG_PRESS
  with assms show ?thesis
    by (auto simp: timer_face_loop_def Let_def resume_setting_def toggle_ok_def)
next
  case EVENT_BACKGROUND_TASK
  have "toggle_ok ((fst (reset (timer_ctx w)))\<lparr>loop_count := n\<rparr>)" for n
    using assms by (simp add: toggle_ok_def reset_def)
  with EVENT_BACKGROUND_TASK show ?thesis
    by (simp add: timer_face_loop_def background_task_def Let_def split_def toggle_ok_start)
next
  case EVENT_ALARM_LONG_PRESS
  show ?thesis
  proof (cases "mode (timer_ctx w)")
    case waiting
    with EVENT_ALARM_LONG_PRESS assms show ?thesis
      by (simp add: timer_face_loop_def Let_def split_def toggle_ok_start)
  qed (use EVENT_ALARM_LONG_PRESS assms in
         \<open>auto simp: timer_face_loop_def Let_def split_def reset_def toggle_ok_def\<close>)
qed (use assms in \<open>simp_all add: timer_face_loop_def Let_def split_def toggle_ok_abort\<close>)

lemma reachable_toggle_ok: "timer_reachable w \<Longrightarrow> toggle_ok (timer_ctx w)"
proof (induction rule: timer_reachable.induct)
  case (reach_setup face_index)
  show ?case by (simp add: toggle_ok_def timer_face_setup_def)
next
  case (reach_loop w env event sett)
  then show ?case by (simp add: toggle_ok_loop)
next
  case (reach_activate w env)
  then show ?case by (auto simp: toggle_ok_def timer_face_activate_def Let_def)
next
  case (reach_resign w)
  then show ?case by (auto simp: toggle_ok_def timer_face_resign_def Let_def)
next
  case (reach_callback w)
  then show ?case by simp
qed

lemma increment_timer:
  assumes "performs_settings_increment env event w"
  shows "timer (timer_ctx (fst (timer_face_loop env event sett w)))
         = timer (settings_increment (timer_ctx w))"
proof -
  have s: "timer (settings_increment (fst (abort_quick_cycle (timer_ctx w))))
           = timer (settings_increment (timer_ctx w))"
    by (auto simp: settings_increment_def abort_quick_cycle_def Let_def)
  have m: "mode (fst (abort_quick_cycle (timer_ctx w))) = mode (timer_ctx w)"
    by (simp add: abort_quick_cycle_def)
  from assms show ?thesis
    unfolding performs_settings_increment_def
  proof (elim disjE conjE)
    assume "event_type event = EVENT_TICK" "mode (timer_ctx w) \<noteq> running"
      "mode (timer_ctx w) \<noteq> pausing" "quick_cycle (timer_ctx w)" "btn_alarm_level env"
    then show ?thesis by (simp add: timer_face_loop_def Let_def)
  next
    assume "event_type event = EVENT_ALARM_BUTTON_UP" "beeps_to_play w = 0"
      "mode (timer_ctx w) = setting"
    then show ?thesis
      using s m by (simp add: timer_face_loop_def Let_def split_def check_for_signal_def)
  qed
qed

lemma no_duration_increment_keeps:
  assumes r: "toggle_ok (timer_ctx w)"
      and i: "unset_implies_no_repeat (timer (timer_ctx w))"
      and n: "\<not> performs_duration_increment env event w"
  shows "unset_implies_no_repeat (timer (timer_ctx (fst (timer_face_loop env event sett w))))"
proof (cases "performs_settings_increment env event w")
  case False
  from loop_timer_kept_or_erased [OF this, of sett] i show ?thesis
    by (auto simp: timer_of_value_0 unset_implies_no_repeat_def)
next
  case True
  with n have c: "settings_state (timer_ctx w) \<noteq> 1" "settings_state (timer_ctx w) \<noteq> 2"
    "settings_state (timer_ctx w) \<noteq> 3"
    by (simp_all add: performs_duration_increment_def)
  show ?thesis
    unfolding increment_timer [OF True]
    using c r i
    by (auto simp: settings_increment_def Let_def toggle_ok_def unset_implies_no_repeat_def
          duration_unset_def)
qed

text \<open>
  Claim C10, amended. In every reachable state the cursor is on the repeat toggle only
  with a duration set. An unset duration with a cleared repeat flag (equivalently: the
  packed value is zero exactly when the duration is unset) holds after setup and is
  kept, from every reachable state, by every event except a field increment with the
  cursor on the hours, the minutes or the seconds, and by activation and resignation.
  Applying the erase request zeroes the whole packed value, repeat flag included.
\<close>

theorem unset_implies_no_repeat_kept:
  "unset_implies_no_repeat (timer (timer_ctx (timer_face_setup face_index :: 'p::len timer_world)))
   \<and> (timer_reachable w \<and> settings_state (timer_ctx w) = 4
      \<longrightarrow> \<not> duration_unset (timer (timer_ctx w)))
   \<and> (timer_reachable w \<and> unset_implies_no_repeat (timer (timer_ctx w))
        \<and> \<not> performs_duration_increment env event w
      \<longrightarrow> unset_implies_no_repeat (timer (timer_ctx (fst (timer_face_loop env event sett w)))))
   \<and> timer (timer_ctx (fst (timer_face_activate env (w :: 'p timer_world)))) = timer (timer_ctx w)
   \<and> timer (timer_ctx (fst (timer_face_resign w))) = timer (timer_ctx w)
   \<and> (erase_timer_flag state \<longrightarrow>
        timer_value (timer (fst (cursor_advance (state :: 'p timer_state)))) = 0)
   \<and> (unset_implies_no_repeat t \<longleftrightarrow> (timer_value t = 0 \<longleftrightarrow> duration_unset t))"
proof (intro conjI impI)
  show "unset_implies_no_repeat
          (timer (timer_ctx (timer_face_setup face_index :: 'p timer_world)))"
    by (simp add: timer_face_setup_def timer_of_default unset_implies_no_repeat_def)
next
  assume "timer_reachable w \<and> settings_state (timer_ctx w) = 4"
  then show "\<not> duration_unset (timer (timer_ctx w))"
    using reachable_toggle_ok [of w] by (simp add: toggle_ok_def)
next
  assume a: "timer_reachable w \<and> unset_implies_no_repeat (timer (timer_ctx w))
             \<and> \<not> performs_duration_increment env event w"
  then have "toggle_ok (timer_ctx w)" by (simp add: reachable_toggle_ok)
  from no_duration_increment_keeps [OF this] a
  show "unset_implies_no_repeat (timer (timer_ctx (fst (timer_face_loop env event sett w))))"
    by simp
next
  show "timer (timer_ctx (fst (timer_face_activate env w))) = timer (timer_ctx w)"
    by (simp add: timer_face_activate_def Let_def)
next
  show "timer (timer_ctx (fst (timer_face_resign w))) = timer (timer_ctx w)"
    by (simp add: timer_face_resign_def Let_def)
next
  assume "erase_timer_flag state"
  then show "timer_value (timer (fst (cursor_advance state))) = 0"
    by (simp add: cursor_advance_timer timer_of_value_0 timer_value_eq_0_iff)
next
  show "unset_implies_no_repeat t \<longleftrightarrow> (timer_value t = 0 \<longleftrightarrow> duration_unset t)"
    by (rule unset_implies_no_repeat_value)
qed

text \<open>
  The repeating one-minute timer with the cursor brought to the repeat toggle has its
  duration set, and toggling the repeat flag there keeps the invariant; an advance with
  the erase request pending zeroes the packed value.
\<close>

theorem unset_implies_no_repeat_kept_witness:
  "settings_state (timer_ctx (timer_run no_settings
       (map press [EVENT_LIGHT_LONG_PRESS, EVENT_LIGHT_BUTTON_UP, EVENT_LIGHT_BUTTON_UP,
                   EVENT_LIGHT_BUTTON_UP, EVENT_LIGHT_BUTTON_UP])
       repeating_timer)) = 4
   \<and> \<not> duration_unset (timer (timer_ctx (timer_run no_settings
       (map press [EVENT_LIGHT_LONG_PRESS, EVENT_LIGHT_BUTTON_UP, EVENT_LIGHT_BUTTON_UP,
                   EVENT_LIGHT_BUTTON_UP, EVENT_LIGHT_BUTTON_UP])
       repeating_timer)))
   \<and> unset_implies_no_repeat (timer (timer_ctx (timer_run no_settings
       (map press [EVENT_LIGHT_LONG_PRESS, EVENT_LIGHT_BUTTON_UP, EVENT_LIGHT_BUTTON_UP,
                   EVENT_LIGHT_BUTTON_UP, EVENT_LIGHT_BUTTON_UP, EVENT_ALARM_BUTTON_UP])
       repeating_timer)))
   \<and> timer_value (timer (fst (cursor_advance
         ((timer_ctx repeating_timer)\<lparr>mode := setting, erase_timer_flag := True\<rparr>)))) = 0"
proof -
  let ?es = "map press [EVENT_LIGHT_LONG_PRESS, EVENT_LIGHT_BUTTON_UP, EVENT_LIGHT_BUTTON_UP,
                        EVENT_LIGHT_BUTTON_UP, EVENT_LIGHT_BUTTON_UP]"
  let ?w = "timer_run no_settings ?es repeating_timer"
  have st: "?w = \<lparr>timer_ctx =
        \<lparr>target_ts = 0, now_ts = 0, paused_left = 0, pausing_seconds = 0,
         watch_face_index = 0,
         timer = \<lparr>seconds = 0, minutes = 1, hours = 0, repeat = True\<rparr>,
         loop_count = 0, settings_state = 4, erase_timer_flag = False, mode = setting,
         quick_cycle = False\<rparr>,
      beeps_to_play = 0\<rparr>"
    unfolding after_set_repeat
    by (simp add: press_def timer_face_loop_def cursor_advance_def resume_setting_def
          timer_value_duration_iff duration_unset_def Let_def)
  have r: "timer_reachable ?w"
    unfolding repeating_timer_def by (intro timer_run_reachable reach_setup)
  have c: "settings_state (timer_ctx ?w) = 4" by (simp only: st) simp
  have i: "unset_implies_no_repeat (timer (timer_ctx ?w))"
    by (simp only: st) (simp add: unset_implies_no_repeat_def duration_unset_def)
  have n: "\<not> performs_duration_increment (fst (press EVENT_ALARM_BUTTON_UP))
             (snd (press EVENT_ALARM_BUTTON_UP)) ?w"
    using c by (simp add: performs_duration_increment_def)
  have app: "timer_run no_settings
               (map press [EVENT_LIGHT_LONG_PRESS, EVENT_LIGHT_BUTTON_UP, EVENT_LIGHT_BUTTON_UP,
                           EVENT_LIGHT_BUTTON_UP, EVENT_LIGHT_BUTTON_UP, EVENT_ALARM_BUTTON_UP])
               repeating_timer
             = fst (timer_face_loop (fst (press EVENT_ALARM_BUTTON_UP))
                      (snd (press EVENT_ALARM_BUTTON_UP)) no_settings ?w)"
    using timer_run_snoc [of no_settings ?es "press EVENT_ALARM_BUTTON_UP" repeating_timer]
    by simp
  have e: "erase_timer_flag ((timer_ctx repeating_timer)\<lparr>mode := setting, erase_timer_flag := True\<rparr>)"
    by simp
  show ?thesis
    using unset_implies_no_repeat_kept
            [where w = ?w and face_index = 0
               and env = "fst (press EVENT_ALARM_BUTTON_UP)"
               and event = "snd (press EVENT_ALARM_BUTTON_UP)" and sett = no_settings
               and state = "(timer_ctx repeating_timer)\<lparr>mode := setting, erase_timer_flag := True\<rparr>"
               and t = "timer (timer_ctx ?w)"]
          r c i n e
    unfolding app
    by blast
qed

subsection \<open>The settings cursor\<close>

lemma cursor_ok_start: "cursor_ok state \<Longrightarrow> mode state \<noteq> setting \<Longrightarrow> cursor_ok (fst (start env state b))"
  by (auto simp: cursor_ok_def start_def Let_def)

lemma cursor_ok_settings_increment: "cursor_ok state \<Longrightarrow> cursor_ok (settings_increment state)"
  by (auto simp: cursor_ok_def settings_increment_def Let_def)

lemma cursor_ok_abort: "cursor_ok (fst (abort_quick_cycle state)) = cursor_ok state"
  by (auto simp: cursor_ok_def abort_quick_cycle_def)

lemma mode_abort: "mode (fst (abort_quick_cycle state)) = mode state"
  by (simp add: abort_quick_cycle_def)

lemma cursor_ok_cursor_advance: "cursor_ok (fst (cursor_advance state))"
  by (simp add: cursor_ok_def cursor_advance_def resume_setting_def Let_def)

lemma cursor_ok_loop:
  assumes "cursor_ok (timer_ctx w)"
  shows "cursor_ok (timer_ctx (fst (timer_face_loop env event sett w)))"
proof (cases "event_type event")
  case EVENT_TICK
  with assms cursor_ok_settings_increment [OF assms] show ?thesis
    by (auto simp: timer_face_loop_def Let_def split_def cursor_ok_abort)
       (simp_all add: cursor_ok_def)
next
  case EVENT_LIGHT_BUTTON_UP
  with assms show ?thesis
    by (cases "mode (timer_ctx w)")
       (simp_all add: timer_face_loop_def Let_def split_def cursor_ok_cursor_advance)
next
  case EVENT_ALARM_BUTTON_UP
  have a: "cursor_ok (fst (abort_quick_cycle (timer_ctx w)))"
    using assms by (simp add: cursor_ok_abort)
  from EVENT_ALARM_BUTTON_UP show ?thesis
  proof (cases "mode (fst (abort_quick_cycle (timer_ctx w)))")
    case waiting
    with EVENT_ALARM_BUTTON_UP a show ?thesis
      by (simp add: timer_face_loop_def Let_def split_def)
  next
    case running
    with EVENT_ALARM_BUTTON_UP a show ?thesis
      by (auto simp: timer_face_loop_def Let_def split_def cursor_ok_def)
  next
    case setting
    with EVENT_ALARM_BUTTON_UP a cursor_ok_settings_increment [OF a] show ?thesis
      by (simp add: timer_face_loop_def Let_def split_def)
  next
    case pausing
    then have "mode (fst (abort_quick_cycle (timer_ctx w))) \<noteq> setting" by simp
    from cursor_ok_start [OF a this] EVENT_ALARM_BUTTON_UP pausing a show ?thesis
      by (simp add: timer_face_loop_def Let_def split_def)
  qed
next
  case EVENT_LIGHT_LONG_PRESS
  with assms show ?thesis
    by (auto simp: timer_face_loop_def Let_def resume_setting_def cursor_ok_def)
next
  case EVENT_BACKGROUND_TASK
  have "cursor_ok (fst (reset (timer_ctx w)))"
    using assms by (simp add: cursor_ok_def reset_def)
  then have "cursor_ok ((fst (reset (timer_ctx w)))\<lparr>loop_count := n\<rparr>)" for n
    by (simp add: cursor_ok_def)
  moreover have "mode ((fst (reset (timer_ctx w)))\<lparr>loop_count := n\<rparr>) \<noteq> setting" for n
    by (simp add: reset_def)
  ultimately have "cursor_ok (fst (start env ((fst (reset (timer_ctx w)))\<lparr>loop_count := n\<rparr>) False))" for n
    by (rule cursor_ok_start)
  with EVENT_BACKGROUND_TASK \<open>\<And>n. cursor_ok ((fst (reset (timer_ctx w)))\<lparr>loop_count := n\<rparr>)\<close>
  show ?thesis
    by (simp add: timer_face_loop_def background_task_def Let_def split_def)
next
  case EVENT_ALARM_LONG_PRESS
  show ?thesis
  proof (cases "mode (timer_ctx w)")
    case waiting
    then have "mode (timer_ctx w) \<noteq> setting" by simp
    from cursor_ok_start [OF assms this] EVENT_ALARM_LONG_PRESS waiting show ?thesis
      by (simp add: timer_face_loop_def Let_def split_def)
  next
    case setting
    with EVENT_ALARM_LONG_PRESS assms show ?thesis
      by (auto simp: timer_face_loop_def Let_def cursor_ok_def)
  qed (use EVENT_ALARM_LONG_PRESS assms in
         \<open>auto simp: timer_face_loop_def Let_def split_def reset_def cursor_ok_def\<close>)
qed (use assms in \<open>simp_all add: timer_face_loop_def Let_def split_def cursor_ok_abort\<close>)

lemma reachable_cursor_ok: "timer_reachable w \<Longrightarrow> cursor_ok (timer_ctx w)"
proof (induction rule: timer_reachable.induct)
  case (reach_setup face_index)
  show ?case by (simp add: cursor_ok_def timer_face_setup_def)
next
  case (reach_loop w env event sett)
  then show ?case by (simp add: cursor_ok_loop)
next
  case (reach_activate w env)
  then show ?case by (auto simp: cursor_ok_def timer_face_activate_def Let_def)
next
  case (reach_resign w)
  then show ?case by (auto simp: cursor_ok_def timer_face_resign_def Let_def)
next
  case (reach_callback w)
  then show ?case by simp
qed

lemma light_button_up_setting:
  assumes "mode (timer_ctx w) = setting" "event_type event = EVENT_LIGHT_BUTTON_UP"
  shows "timer_ctx (fst (timer_face_loop env event sett w)) = fst (cursor_advance (timer_ctx w))"
  using assms by (simp add: timer_face_loop_def Let_def split_def)

lemma cursor_advance_fields:
  "erase_timer_flag (fst (cursor_advance state)) = False"
  "settings_state (fst (cursor_advance state)) =
     (if (settings_state state + 1) mod 5 = 4 \<and> duration_unset (timer (fst (cursor_advance state)))
      then 1 else (settings_state state + 1) mod 5)"
  "mode (fst (cursor_advance state)) =
     (if (settings_state state + 1) mod 5 = 0 then waiting else mode state)"
  by (simp_all add: cursor_advance_def resume_setting_def Let_def timer_value_duration_iff)

text \<open>
  Claim C7. While the timer is being set, a release of the light button moves the
  cursor to (cursor + 1) mod 5, except that it lands on 1 instead of 4 when the duration
  is unset at that moment; reaching 0 ends the setting. A pending erase request is
  applied by this advance (the whole timer is zeroed and the request cleared), and in
  every reachable state a request can only be pending with the cursor at 0, so it is
  applied exactly on the advance that leaves 0. With a duration set and no erase
  pending, five advances from 0 show the cursor at 1, 2, 3, 4 and 0 again.
\<close>

theorem cursor_advance_cycle:
  "timer_reachable w \<and> mode (timer_ctx w) = setting \<and> event_type event = EVENT_LIGHT_BUTTON_UP
   \<longrightarrow>
     settings_state (timer_ctx w) < 5
     \<and> (erase_timer_flag (timer_ctx w) \<longrightarrow> settings_state (timer_ctx w) = 0)
     \<and> timer (timer_ctx (fst (timer_face_loop env event sett w)))
         = (if erase_timer_flag (timer_ctx w) then timer_of_value 0 else timer (timer_ctx w))
     \<and> \<not> erase_timer_flag (timer_ctx (fst (timer_face_loop env event sett w)))
     \<and> settings_state (timer_ctx (fst (timer_face_loop env event sett w)))
         = (if (settings_state (timer_ctx w) + 1) mod 5 = 4
               \<and> duration_unset (timer (timer_ctx (fst (timer_face_loop env event sett w))))
            then 1 else (settings_state (timer_ctx w) + 1) mod 5)
     \<and> mode (timer_ctx (fst (timer_face_loop env event sett w)))
         = (if (settings_state (timer_ctx w) + 1) mod 5 = 0 then waiting else setting)
     \<and> (settings_state (timer_ctx w) = 0 \<and> \<not> erase_timer_flag (timer_ctx w)
          \<and> \<not> duration_unset (timer (timer_ctx w))
        \<longrightarrow> map (\<lambda>es. settings_state (timer_ctx (timer_run sett es w)))
               [[(env, event)], [(env, event), (env, event)],
                [(env, event), (env, event), (env, event)],
                [(env, event), (env, event), (env, event), (env, event)],
                [(env, event), (env, event), (env, event), (env, event), (env, event)]]
             = [1, 2, 3, 4, 0])"
proof (intro impI)
  assume a: "timer_reachable w \<and> mode (timer_ctx w) = setting
             \<and> event_type event = EVENT_LIGHT_BUTTON_UP"
  then have r: "timer_reachable w" and m: "mode (timer_ctx w) = setting"
    and e: "event_type event = EVENT_LIGHT_BUTTON_UP" by simp_all
  note ok = reachable_cursor_ok [OF r]
  note step = light_button_up_setting [OF m e]
  have 1: "settings_state (timer_ctx w) < 5"
    and 2: "erase_timer_flag (timer_ctx w) \<longrightarrow> settings_state (timer_ctx w) = 0"
    using ok m by (auto simp: cursor_ok_def split: if_splits)
  have 3: "settings_state (timer_ctx w) = 0 \<and> \<not> erase_timer_flag (timer_ctx w)
          \<and> \<not> duration_unset (timer (timer_ctx w))
        \<longrightarrow> map (\<lambda>es. settings_state (timer_ctx (timer_run sett es w)))
               [[(env, event)], [(env, event), (env, event)],
                [(env, event), (env, event), (env, event)],
                [(env, event), (env, event), (env, event), (env, event)],
                [(env, event), (env, event), (env, event), (env, event), (env, event)]]
             = [1, 2, 3, 4, 0]"
    using m e
    by (simp add: timer_face_loop_def cursor_advance_def resume_setting_def Let_def split_def
          timer_value_duration_iff)
  from 1 2 3 m show
    "settings_state (timer_ctx w) < 5
     \<and> (erase_timer_flag (timer_ctx w) \<longrightarrow> settings_state (timer_ctx w) = 0)
     \<and> timer (timer_ctx (fst (timer_face_loop env event sett w)))
         = (if erase_timer_flag (timer_ctx w) then timer_of_value 0 else timer (timer_ctx w))
     \<and> \<not> erase_timer_flag (timer_ctx (fst (timer_face_loop env event sett w)))
     \<and> settings_state (timer_ctx (fst (timer_face_loop env event sett w)))
         = (if (settings_state (timer_ctx w) + 1) mod 5 = 4
               \<and> duration_unset (timer (timer_ctx (fst (timer_face_loop env event sett w))))
            then 1 else (settings_state (timer_ctx w) + 1) mod 5)
     \<and> mode (timer_ctx (fst (timer_face_loop env event sett w)))
         = (if (settings_state (timer_ctx w) + 1) mod 5 = 0 then waiting else setting)
     \<and> (settings_state (timer_ctx w) = 0 \<and> \<not> erase_timer_flag (timer_ctx w)
          \<and> \<not> duration_unset (timer (timer_ctx w))
        \<longrightarrow> map (\<lambda>es. settings_state (timer_ctx (timer_run sett es w)))
               [[(env, event)], [(env, event), (env, event)],
                [(env, event), (env, event), (env, event)],
                [(env, event), (env, event), (env, event), (env, event)],
                [(env, event), (env, event), (env, event), (env, event), (env, event)]]
             = [1, 2, 3, 4, 0])"
    unfolding step
    by (simp only: cursor_advance_fields cursor_advance_timer) simp
qed

text \<open>
  From the settings of the default timer the cursor runs through 1, 2, 3, 4 and back to
  0.
\<close>

theorem cursor_advance_cycle_witness:
  "map (\<lambda>es. settings_state (timer_ctx (timer_run no_settings es setting_timer)))
     [[press EVENT_LIGHT_BUTTON_UP],
      [press EVENT_LIGHT_BUTTON_UP, press EVENT_LIGHT_BUTTON_UP],
      [press EVENT_LIGHT_BUTTON_UP, press EVENT_LIGHT_BUTTON_UP, press EVENT_LIGHT_BUTTON_UP],
      [press EVENT_LIGHT_BUTTON_UP, press EVENT_LIGHT_BUTTON_UP, press EVENT_LIGHT_BUTTON_UP,
       press EVENT_LIGHT_BUTTON_UP],
      [press EVENT_LIGHT_BUTTON_UP, press EVENT_LIGHT_BUTTON_UP, press EVENT_LIGHT_BUTTON_UP,
       press EVENT_LIGHT_BUTTON_UP, press EVENT_LIGHT_BUTTON_UP]]
   = [1, 2, 3, 4, 0]"
  using cursor_advance_cycle
          [of setting_timer "snd (press EVENT_LIGHT_BUTTON_UP)" "fst (press EVENT_LIGHT_BUTTON_UP)"
              no_settings]
        setting_timer_reachable
  by (simp add: setting_timer_state press_def duration_unset_def)

subsection \<open>Pause and resume\<close>

lemma pause_step:
  assumes "mode (timer_ctx w) = running" "beeps_to_play w = 0"
      and "event_type event = EVENT_ALARM_BUTTON_UP"
  shows "mode (timer_ctx (fst (timer_face_loop env event sett w))) = pausing"
    and "paused_left (timer_ctx (fst (timer_face_loop env event sett w)))
         = ucast (target_ts (timer_ctx w) - now_ts (timer_ctx w))"
    and "timer (timer_ctx (fst (timer_face_loop env event sett w))) = timer (timer_ctx w)"
    and "watch_face_index (timer_ctx (fst (timer_face_loop env event sett w)))
         = watch_face_index (timer_ctx w)"
    and "beeps_to_play (fst (timer_face_loop env event sett w)) = 0"
    and "Cancel_background_task \<in> set (snd (timer_face_loop env event sett w))"
  using assms
  by (simp_all add: timer_face_loop_def Let_def split_def check_for_signal_def
        abort_quick_cycle_def)

lemma tick_pausing:
  assumes "mode (timer_ctx w) = pausing" "event_type event = EVENT_TICK"
  shows "timer_ctx (fst (timer_face_loop env event sett w))
         = (timer_ctx w)\<lparr>pausing_seconds := pausing_seconds (timer_ctx w) + 1\<rparr>"
    and "beeps_to_play (fst (timer_face_loop env event sett w)) = beeps_to_play w"
  using assms by (simp_all add: timer_face_loop_def Let_def)

lemma ticks_pausing:
  assumes "mode (timer_ctx w) = pausing"
      and "\<forall>ee \<in> set ticks. event_type (snd ee) = EVENT_TICK"
  shows "mode (timer_ctx (timer_run sett ticks w)) = pausing
         \<and> paused_left (timer_ctx (timer_run sett ticks w)) = paused_left (timer_ctx w)
         \<and> timer (timer_ctx (timer_run sett ticks w)) = timer (timer_ctx w)
         \<and> watch_face_index (timer_ctx (timer_run sett ticks w)) = watch_face_index (timer_ctx w)
         \<and> beeps_to_play (timer_run sett ticks w) = beeps_to_play w"
  using assms
proof (induction ticks arbitrary: w)
  case Nil
  then show ?case by simp
next
  case (Cons ee ticks)
  then have e: "event_type (snd ee) = EVENT_TICK" by simp
  note t = tick_pausing [OF Cons.prems(1) e, of "fst ee" sett]
  have "mode (timer_ctx (fst (timer_face_loop (fst ee) (snd ee) sett w))) = pausing"
    using Cons.prems(1) by (simp add: t)
  from Cons.IH [OF this] Cons.prems(2) show ?case by (simp add: t)
qed

lemma resume_step:
  assumes "mode (timer_ctx w) = pausing" "beeps_to_play w = 0"
      and "timer_value (timer (timer_ctx w)) \<noteq> 0"
      and "event_type event = EVENT_ALARM_BUTTON_UP"
  shows "mode (timer_ctx (fst (timer_face_loop env event sett w))) = running"
    and "target_ts (timer_ctx (fst (timer_face_loop env event sett w)))
         = rtc_unix_time env + ucast (paused_left (timer_ctx w))"
    and "Schedule_background_task_for_face (watch_face_index (timer_ctx w))
           (rtc_unix_time env + ucast (paused_left (timer_ctx w)))
         \<in> set (snd (timer_face_loop env event sett w))"
proof -
  have v: "timer_value (timer (fst (abort_quick_cycle (timer_ctx w)))) \<noteq> 0"
    using assms(3) by (simp add: abort_quick_cycle_def)
  have m: "mode (fst (abort_quick_cycle (timer_ctx w))) = pausing"
    using assms(1) by (simp add: abort_quick_cycle_def)
  show "mode (timer_ctx (fst (timer_face_loop env event sett w))) = running"
    and "target_ts (timer_ctx (fst (timer_face_loop env event sett w)))
         = rtc_unix_time env + ucast (paused_left (timer_ctx w))"
    and "Schedule_background_task_for_face (watch_face_index (timer_ctx w))
           (rtc_unix_time env + ucast (paused_left (timer_ctx w)))
         \<in> set (snd (timer_face_loop env event sett w))"
    using assms(2,4) m
    by (simp_all add: timer_face_loop_def Let_def split_def check_for_signal_def
          start_running [OF v])
       (simp_all add: abort_quick_cycle_def)
qed

lemma first_start_step:
  assumes "mode (timer_ctx w) = waiting" "timer_value (timer (timer_ctx w)) \<noteq> 0"
      and "event_type event = EVENT_ALARM_LONG_PRESS"
  shows "timer_ctx (fst (timer_face_loop env event sett w))
         = (timer_ctx w)\<lparr>now_ts := rtc_unix_time env,
                         target_ts := offset_timestamp (rtc_unix_time env)
                           (hours (timer (timer_ctx w))) (minutes (timer (timer_ctx w)))
                           (seconds (timer (timer_ctx w))),
                         mode := running\<rparr>"
    and "beeps_to_play (fst (timer_face_loop env event sett w)) = beeps_to_play w"
  using assms
  by (simp_all add: timer_face_loop_def Let_def split_def start_running)

lemma offset_timestamp_sum:
  "offset_timestamp base h m s
   = base + word_of_nat (unat h * 3600 + unat m * 60 + unat s)"
  by (simp add: offset_timestamp_def)

lemma duration_less: "unat (h :: 8 word) * 3600 + unat (m :: 8 word) * 60 + unat (s :: 8 word) < 2 ^ 32"
proof -
  have "unat h < 256" "unat m < 256" "unat s < 256"
    using unsigned_less [of h] unsigned_less [of m] unsigned_less [of s] by simp_all
  then show ?thesis by simp
qed

lemma duration_nonzero_value: "\<not> duration_unset t \<Longrightarrow> timer_value t \<noteq> 0"
  by (auto simp: timer_value_eq_0_iff duration_unset_def)

text \<open>
  What pause and resume do, whatever the width of \<^verbatim>\<open>paused_left\<close>: pausing a running
  timer (a release of the alarm button with no beeps pending) stores the remaining
  seconds, target minus now, in \<^verbatim>\<open>paused_left\<close> and cancels the wake-up; after any
  number of ticks, resuming with the clock at \<open>t2\<close> sets the target to \<open>t2\<close> plus the
  stored remainder and schedules the wake-up for it. That is \<open>t2 + (target - now)\<close>
  when the remaining seconds fit \<^verbatim>\<open>paused_left\<close>, and then start, pause and resume
  with the clock at \<open>t0\<close> give the target \<open>t0 + h*3600 + m*60 + s\<close> of the
  uninterrupted run.
\<close>

lemma pause_resume_when_fits:
  fixes w w0 :: "('p::len) timer_world"
  shows
  "(mode (timer_ctx w) = running \<and> beeps_to_play w = 0
      \<and> \<not> duration_unset (timer (timer_ctx w))
      \<and> event_type up1 = EVENT_ALARM_BUTTON_UP \<and> event_type up2 = EVENT_ALARM_BUTTON_UP
      \<and> (\<forall>ee \<in> set ticks. event_type (snd ee) = EVENT_TICK)
    \<longrightarrow>
      (let w1 = fst (timer_face_loop env1 up1 sett w);
           w2 = timer_run sett ticks w1;
           w3 = fst (timer_face_loop env2 up2 sett w2)
       in mode (timer_ctx w1) = pausing
          \<and> paused_left (timer_ctx w1)
              = ucast (target_ts (timer_ctx w) - now_ts (timer_ctx w))
          \<and> Cancel_background_task \<in> set (snd (timer_face_loop env1 up1 sett w))
          \<and> mode (timer_ctx w3) = running
          \<and> target_ts (timer_ctx w3)
              = rtc_unix_time env2 + ucast (paused_left (timer_ctx w1))
          \<and> Schedule_background_task_for_face (watch_face_index (timer_ctx w))
                (target_ts (timer_ctx w3))
              \<in> set (snd (timer_face_loop env2 up2 sett w2))
          \<and> (unat (target_ts (timer_ctx w) - now_ts (timer_ctx w)) < 2 ^ LENGTH('p)
              \<longrightarrow> target_ts (timer_ctx w3)
                    = rtc_unix_time env2 + (target_ts (timer_ctx w) - now_ts (timer_ctx w)))))
   \<and> (mode (timer_ctx w0) = waiting \<and> beeps_to_play w0 = 0
      \<and> \<not> duration_unset (timer (timer_ctx w0))
      \<and> unat (hours (timer (timer_ctx w0))) * 3600 + unat (minutes (timer (timer_ctx w0))) * 60
          + unat (seconds (timer (timer_ctx w0))) < 2 ^ LENGTH('p)
      \<and> event_type press0 = EVENT_ALARM_LONG_PRESS
      \<and> event_type up1 = EVENT_ALARM_BUTTON_UP \<and> event_type up2 = EVENT_ALARM_BUTTON_UP
      \<and> rtc_unix_time env2 = rtc_unix_time env0
    \<longrightarrow>
      (let wa = fst (timer_face_loop env0 press0 sett w0);
           wb = fst (timer_face_loop env1 up1 sett wa);
           wc = fst (timer_face_loop env2 up2 sett wb)
       in target_ts (timer_ctx wa)
            = rtc_unix_time env0
              + word_of_nat (unat (hours (timer (timer_ctx w0))) * 3600
                             + unat (minutes (timer (timer_ctx w0))) * 60
                             + unat (seconds (timer (timer_ctx w0))))
          \<and> mode (timer_ctx wc) = running
          \<and> target_ts (timer_ctx wc) = target_ts (timer_ctx wa)))"
proof (intro conjI impI)
  assume a: "mode (timer_ctx w) = running \<and> beeps_to_play w = 0
      \<and> \<not> duration_unset (timer (timer_ctx w))
      \<and> event_type up1 = EVENT_ALARM_BUTTON_UP \<and> event_type up2 = EVENT_ALARM_BUTTON_UP
      \<and> (\<forall>ee \<in> set ticks. event_type (snd ee) = EVENT_TICK)"
  then have run: "mode (timer_ctx w) = running" and b0: "beeps_to_play w = 0"
    and set: "\<not> duration_unset (timer (timer_ctx w))"
    and u1: "event_type up1 = EVENT_ALARM_BUTTON_UP"
    and u2: "event_type up2 = EVENT_ALARM_BUTTON_UP"
    and tk: "\<forall>ee \<in> set ticks. event_type (snd ee) = EVENT_TICK"
    by simp_all
  define w1 where "w1 = fst (timer_face_loop env1 up1 sett w)"
  define w2 where "w2 = timer_run sett ticks w1"
  note p = pause_step [OF run b0 u1, of env1 sett, folded w1_def]
  note t = ticks_pausing [OF p(1) tk, of sett, folded w2_def]
  have v: "timer_value (timer (timer_ctx w2)) \<noteq> 0"
    using t p(3) set by (simp add: duration_nonzero_value)
  have m2: "mode (timer_ctx w2) = pausing" and b2: "beeps_to_play w2 = 0"
    using t p(5) by simp_all
  note r = resume_step [OF m2 b2 v u2, of env2 sett]
  have cast: "unat (target_ts (timer_ctx w) - now_ts (timer_ctx w)) < 2 ^ LENGTH('p)
              \<longrightarrow> (ucast (paused_left (timer_ctx w1)) :: 32 word)
                    = target_ts (timer_ctx w) - now_ts (timer_ctx w)"
    unfolding p(2) by (simp add: ucast_ucast_fits)
  have pl2: "paused_left (timer_ctx w2) = paused_left (timer_ctx w1)"
    and fi2: "watch_face_index (timer_ctx w2) = watch_face_index (timer_ctx w)"
    using t p(4) by simp_all
  show "let w1 = fst (timer_face_loop env1 up1 sett w);
            w2 = timer_run sett ticks w1;
            w3 = fst (timer_face_loop env2 up2 sett w2)
        in mode (timer_ctx w1) = pausing
          \<and> paused_left (timer_ctx w1)
              = ucast (target_ts (timer_ctx w) - now_ts (timer_ctx w))
          \<and> Cancel_background_task \<in> set (snd (timer_face_loop env1 up1 sett w))
          \<and> mode (timer_ctx w3) = running
          \<and> target_ts (timer_ctx w3)
              = rtc_unix_time env2 + ucast (paused_left (timer_ctx w1))
          \<and> Schedule_background_task_for_face (watch_face_index (timer_ctx w))
                (target_ts (timer_ctx w3))
              \<in> set (snd (timer_face_loop env2 up2 sett w2))
          \<and> (unat (target_ts (timer_ctx w) - now_ts (timer_ctx w)) < 2 ^ LENGTH('p)
              \<longrightarrow> target_ts (timer_ctx w3)
                    = rtc_unix_time env2 + (target_ts (timer_ctx w) - now_ts (timer_ctx w)))"
    unfolding Let_def w1_def [symmetric] w2_def [symmetric]
    using p(1) p(2) p(6) r cast by (simp add: pl2 fi2)
next
  assume a: "mode (timer_ctx w0) = waiting \<and> beeps_to_play w0 = 0
      \<and> \<not> duration_unset (timer (timer_ctx w0))
      \<and> unat (hours (timer (timer_ctx w0))) * 3600 + unat (minutes (timer (timer_ctx w0))) * 60
          + unat (seconds (timer (timer_ctx w0))) < 2 ^ LENGTH('p)
      \<and> event_type press0 = EVENT_ALARM_LONG_PRESS
      \<and> event_type up1 = EVENT_ALARM_BUTTON_UP \<and> event_type up2 = EVENT_ALARM_BUTTON_UP
      \<and> rtc_unix_time env2 = rtc_unix_time env0"
  define D where "D = unat (hours (timer (timer_ctx w0))) * 3600
                      + unat (minutes (timer (timer_ctx w0))) * 60
                      + unat (seconds (timer (timer_ctx w0)))"
  from a have wt: "mode (timer_ctx w0) = waiting" and b0: "beeps_to_play w0 = 0"
    and set: "\<not> duration_unset (timer (timer_ctx w0))"
    and fits: "D < 2 ^ LENGTH('p)"
    and p0: "event_type press0 = EVENT_ALARM_LONG_PRESS"
    and u1: "event_type up1 = EVENT_ALARM_BUTTON_UP"
    and u2: "event_type up2 = EVENT_ALARM_BUTTON_UP"
    and same: "rtc_unix_time env2 = rtc_unix_time env0"
    by (simp_all add: D_def)
  define wa where "wa = fst (timer_face_loop env0 press0 sett w0)"
  define wb where "wb = fst (timer_face_loop env1 up1 sett wa)"
  note s = first_start_step [OF wt duration_nonzero_value [OF set] p0, of env0 sett,
             folded wa_def]
  have ta: "target_ts (timer_ctx wa) = rtc_unix_time env0 + word_of_nat D"
    and na: "now_ts (timer_ctx wa) = rtc_unix_time env0"
    and ma: "mode (timer_ctx wa) = running" and ba: "beeps_to_play wa = 0"
    and tia: "timer (timer_ctx wa) = timer (timer_ctx w0)"
    using b0 by (simp_all add: s offset_timestamp_sum D_def)
  have "D < 2 ^ 32" unfolding D_def by (rule duration_less)
  then have "unat (word_of_nat D :: 32 word) = D"
    by (simp add: unat_of_nat)
  then have fa: "unat (target_ts (timer_ctx wa) - now_ts (timer_ctx wa)) < 2 ^ LENGTH('p)"
    using fits by (simp add: ta na)
  note p = pause_step [OF ma ba u1, of env1 sett, folded wb_def]
  have v: "timer_value (timer (timer_ctx wb)) \<noteq> 0"
    using p(3) tia set by (simp add: duration_nonzero_value)
  note r = resume_step [OF p(1) p(5) v u2, of env2 sett]
  have cast: "(ucast (paused_left (timer_ctx wb)) :: 32 word)
              = target_ts (timer_ctx wa) - now_ts (timer_ctx wa)"
    unfolding p(2) by (rule ucast_ucast_fits [OF fa])
  show "let wa = fst (timer_face_loop env0 press0 sett w0);
            wb = fst (timer_face_loop env1 up1 sett wa);
            wc = fst (timer_face_loop env2 up2 sett wb)
        in target_ts (timer_ctx wa)
             = rtc_unix_time env0
               + word_of_nat (unat (hours (timer (timer_ctx w0))) * 3600
                              + unat (minutes (timer (timer_ctx w0))) * 60
                              + unat (seconds (timer (timer_ctx w0))))
           \<and> mode (timer_ctx wc) = running
           \<and> target_ts (timer_ctx wc) = target_ts (timer_ctx wa)"
    unfolding Let_def wa_def [symmetric] wb_def [symmetric] D_def [symmetric]
    using ta r(1) r(2) cast same na by simp
qed

text \<open>
  The one-minute timer started at 1000 and paused: resumed at 2000 after three ticks its
  target is 2060. Started at 1000 from setup, paused and resumed at once: 1060.
\<close>

lemma pause_resume_one_minute:
  "target_ts (timer_ctx (fst (timer_face_loop (fst (press_at 2000 EVENT_ALARM_BUTTON_UP))
       (snd (press_at 2000 EVENT_ALARM_BUTTON_UP)) no_settings
       (timer_run no_settings
          [press EVENT_TICK, press EVENT_TICK, press EVENT_TICK]
          (fst (timer_face_loop (fst (press EVENT_ALARM_BUTTON_UP))
                  (snd (press EVENT_ALARM_BUTTON_UP)) no_settings started_timer)))))) = 2060
   \<and> target_ts (timer_ctx (fst (timer_face_loop (fst (press_at 1000 EVENT_ALARM_BUTTON_UP))
       (snd (press_at 1000 EVENT_ALARM_BUTTON_UP)) no_settings
       (fst (timer_face_loop (fst (press EVENT_ALARM_BUTTON_UP))
               (snd (press EVENT_ALARM_BUTTON_UP)) no_settings
               (fst (timer_face_loop (fst (press_at 1000 EVENT_ALARM_LONG_PRESS))
                       (snd (press_at 1000 EVENT_ALARM_LONG_PRESS)) no_settings
                       (timer_face_setup 0 :: 16 timer_world)))))))) = 1060"
  using pause_resume_when_fits
          [where w = started_timer and ?w0.0 = "timer_face_setup 0"
             and ticks = "[press EVENT_TICK, press EVENT_TICK, press EVENT_TICK]"
             and ?up1.0 = "snd (press EVENT_ALARM_BUTTON_UP)"
             and ?env1.0 = "fst (press EVENT_ALARM_BUTTON_UP)"
             and ?up2.0 = "snd (press_at 2000 EVENT_ALARM_BUTTON_UP)"
             and ?env2.0 = "fst (press_at 2000 EVENT_ALARM_BUTTON_UP)"
             and sett = no_settings]
        pause_resume_when_fits
          [where w = started_timer and ?w0.0 = "timer_face_setup 0"
             and ticks = "[]"
             and ?press0.0 = "snd (press_at 1000 EVENT_ALARM_LONG_PRESS)"
             and ?env0.0 = "fst (press_at 1000 EVENT_ALARM_LONG_PRESS)"
             and ?up1.0 = "snd (press EVENT_ALARM_BUTTON_UP)"
             and ?env1.0 = "fst (press EVENT_ALARM_BUTTON_UP)"
             and ?up2.0 = "snd (press_at 1000 EVENT_ALARM_BUTTON_UP)"
             and ?env2.0 = "fst (press_at 1000 EVENT_ALARM_BUTTON_UP)"
             and sett = no_settings]
  by (simp add: started_timer_state press_def press_at_def duration_unset_def Let_def
        timer_face_setup_def timer_of_default)

subsection \<open>A remainder that does not fit\<close>

lemma hour_presses:
  fixes h :: "8 word"
  assumes "unat h < 24"
  shows "timer_run sett (replicate n (press EVENT_ALARM_BUTTON_UP))
           \<lparr>timer_ctx =
              \<lparr>target_ts = tt, now_ts = nt, paused_left = pl, pausing_seconds = ps,
               watch_face_index = fi,
               timer = \<lparr>seconds = s, minutes = m, hours = h, repeat = r\<rparr>,
               loop_count = lc, settings_state = 1, erase_timer_flag = ef, mode = setting,
               quick_cycle = False\<rparr>,
            beeps_to_play = 0\<rparr>
         = \<lparr>timer_ctx =
              \<lparr>target_ts = tt, now_ts = nt, paused_left = pl, pausing_seconds = ps,
               watch_face_index = fi,
               timer = \<lparr>seconds = s, minutes = m, hours = word_of_nat ((unat h + n) mod 24),
                        repeat = r\<rparr>,
               loop_count = lc, settings_state = 1, erase_timer_flag = ef, mode = setting,
               quick_cycle = False\<rparr>,
            beeps_to_play = 0\<rparr>"
  using assms
proof (induction n arbitrary: h)
  case 0
  then show ?case by simp
next
  case (Suc n)
  define h1 :: "8 word" where "h1 = word_of_nat (Suc (unat h) mod 24)"
  have "Suc (unat h) mod 24 < 256"
    by (rule less_trans [of _ 24]) simp_all
  then have u: "unat h1 = Suc (unat h) mod 24"
    by (simp add: h1_def unat_of_nat)
  then have "unat h1 < 24" by simp
  from Suc.IH [OF this] show ?case
    by (simp add: press_def timer_face_loop_def abort_quick_cycle_def check_for_signal_def
          settings_increment_def Let_def h1_def [symmetric] u mod_add_left_eq)
qed

lemma twenty_hour_timer_state:
  "twenty_hour_timer =
     \<lparr>timer_ctx =
        \<lparr>target_ts = 0, now_ts = 0, paused_left = 0, pausing_seconds = 0,
         watch_face_index = 0,
         timer = \<lparr>seconds = 0, minutes = 0, hours = 20, repeat = False\<rparr>,
         loop_count = 0, settings_state = 0, erase_timer_flag = False, mode = waiting,
         quick_cycle = False\<rparr>,
      beeps_to_play = 0\<rparr>"
proof -
  have a: "timer_run no_settings
             (map press [EVENT_LIGHT_LONG_PRESS, EVENT_ALARM_BUTTON_UP, EVENT_LIGHT_BUTTON_UP])
             (timer_face_setup 0 :: 16 timer_world)
           = \<lparr>timer_ctx =
              \<lparr>target_ts = 0, now_ts = 0, paused_left = 0, pausing_seconds = 0,
               watch_face_index = 0,
               timer = \<lparr>seconds = 0, minutes = 0, hours = 0, repeat = False\<rparr>,
               loop_count = 0, settings_state = 1, erase_timer_flag = False, mode = setting,
               quick_cycle = False\<rparr>,
            beeps_to_play = 0\<rparr>"
    by (simp add: press_def timer_face_setup_def timer_of_default timer_of_value_0
          timer_face_loop_def cursor_advance_def resume_setting_def abort_quick_cycle_def
          check_for_signal_def settings_increment_def timer_value_duration_iff
          duration_unset_def Let_def)
  have b: "unat (0 :: 8 word) < 24" by simp
  show ?thesis
    unfolding twenty_hour_timer_def twenty_hour_events_def timer_run_append a
      hour_presses [OF b]
    by (simp add: press_def timer_face_loop_def resume_setting_def Let_def)
qed

lemma twenty_hour_timer_reachable: "timer_reachable twenty_hour_timer"
  unfolding twenty_hour_timer_def by (intro timer_run_reachable reach_setup)

text \<open>
  Claim C5 says that, for every set duration, resuming gives the target \<open>t2\<close> plus the
  remaining seconds target minus now of the pause, and that start, pause and resume at
  once give the target \<open>t0 + h*3600 + m*60 + s\<close> of the uninterrupted run. The pause
  stores the remainder in \<^verbatim>\<open>paused_left\<close>; where that field has sixteen bits, the
  remainder of a timer of twenty hours, 72000 seconds, is cut to 6464. Set through the
  buttons and started with the clock at 1000, the timer has the target 73000; paused
  and resumed at once, with the clock still at 1000, it has the target 7464.
\<close>

theorem pause_resume_truncates:
  "timer_reachable twenty_hour_timer
   \<and> timer (timer_ctx twenty_hour_timer)
       = \<lparr>seconds = 0, minutes = 0, hours = 20, repeat = False\<rparr>
   \<and> mode (timer_ctx twenty_hour_timer) = waiting
   \<and> target_ts (timer_ctx (timer_run no_settings (take 1 start_pause_resume)
                              twenty_hour_timer)) = 73000
   \<and> mode (timer_ctx (timer_run no_settings (take 2 start_pause_resume)
                         twenty_hour_timer)) = pausing
   \<and> target_ts (timer_ctx (timer_run no_settings (take 2 start_pause_resume)
                              twenty_hour_timer))
       - now_ts (timer_ctx (timer_run no_settings (take 2 start_pause_resume)
                              twenty_hour_timer)) = 72000
   \<and> paused_left (timer_ctx (timer_run no_settings (take 2 start_pause_resume)
                                twenty_hour_timer)) = 6464
   \<and> mode (timer_ctx (timer_run no_settings start_pause_resume twenty_hour_timer)) = running
   \<and> target_ts (timer_ctx (timer_run no_settings start_pause_resume twenty_hour_timer))
       = 7464"
  using twenty_hour_timer_reachable
  by (simp add: twenty_hour_timer_state start_pause_resume_def press_at_def
        timer_face_loop_def start_def timer_value_eq_0_iff offset_timestamp_def
        abort_quick_cycle_def check_for_signal_def Let_def)

end
